theory Spec2Isabelle
  imports
    Main
    "HOL-Library.Word"
    "HOL-Library.Option_ord"
    "HOL-Library.Product_Lexorder"
    "HOL-Library.AList"
begin

unbundle bit_operations_syntax

section \<open>Constants and errors\<close>

type_synonym byte = "8 word"
type_synonym bytes = "byte list"

text \<open>\<^verbatim>\<open>const MAX_DOCUMENT_SIZE = 15000000\<close> (utils.js, line 9).\<close>

definition MAX_DOCUMENT_SIZE :: nat where
  "MAX_DOCUMENT_SIZE = 15000000"

text \<open>Modelled from the spec: the constants of lib0/binary (a dependency, not under src/)
  that the source and the codec use, with the values lib0 gives them:
  \<^verbatim>\<open>BITS7 = 0b1111111\<close>, \<^verbatim>\<open>BIT8 = 128\<close>, \<^verbatim>\<open>BITS32 = 0xFFFFFFFF\<close>. \<open>BITS32\<close> bounds
  what the spec calls the valid clock range. \<open>MAX_SAFE_INTEGER\<close> is JavaScript's
  \<^verbatim>\<open>Number.MAX_SAFE_INTEGER = 2^53 - 1\<close>.\<close>

definition BITS7 :: int where
  "BITS7 = 127"

definition BIT8 :: int where
  "BIT8 = 128"

definition BITS32 :: int where
  "BITS32 = 4294967295"

definition MAX_SAFE_INTEGER :: int where
  "MAX_SAFE_INTEGER = 9007199254740991"

text \<open>Every value the modelled code throws. \<open>CorruptChunkSequence\<close> is
  \<^verbatim>\<open>new Error('Couldnt merge updates together because a part is missing!')\<close>,
  \<open>NoBufferProvided\<close> is \<^verbatim>\<open>new Error('No buffer provided at decodeMongodbStateVector()')\<close>.
  \<open>UnexpectedEndOfArray\<close>, \<open>IntegerOutOfRange\<close> and \<open>RangeError\<close> come from the decoder.
  The three Mongo errors are the classes \<open>retryMongoOperation\<close> tests with
  \<^verbatim>\<open>instanceof\<close>; the driver declares \<open>MongoNetworkTimeoutError\<close> a subclass of
  \<open>MongoNetworkError\<close>. \<open>OtherError\<close> is any other thrown value and \<open>ThrownUndefined\<close>
  is \<^verbatim>\<open>throw undefined\<close>.\<close>

datatype js_error =
    CorruptChunkSequence
  | NoBufferProvided
  | UnexpectedEndOfArray
  | IntegerOutOfRange
  | RangeError
  | MongoNetworkError
  | MongoNetworkTimeoutError
  | MongoBulkWriteError
  | OtherError string
  | ThrownUndefined

section \<open>The variable-length codec of the state-vector record\<close>

text \<open>Modelled from the spec: the encoder and decoder primitives of lib0 (a dependency,
  \<^verbatim>\<open>"lib0": "^0.2.89"\<close>, whose files are not under src/). The spec calls them
  ``a variable-length integer'' and ``a length-prefixed byte block''; the definitions follow
  lib0's format: groups of seven bits, least significant group first, bit 8 set on every
  byte but the last.

  \<^verbatim>\<open>
  writeVarUint = (encoder, num) => {
    while (num > BITS7) {
      write(encoder, BIT8 | (BITS7 & num))
      num = math.floor(num / 128)
    }
    write(encoder, BITS7 & num)
  }
  \<close>
  JavaScript's \<^verbatim>\<open>&\<close> first reduces its operands to 32 bits; the low seven bits of an
  integer are not changed by that, so \<open>BITS7 AND num\<close> on \<open>int\<close> is the same byte, also
  for a negative \<open>num\<close>. The encoder is modelled by the bytes it appends.\<close>

function writeVarUint :: "int \<Rightarrow> bytes" where
  "writeVarUint num =
     (if num > BITS7
      then word_of_int (BIT8 OR (BITS7 AND num)) # writeVarUint (num div 128)
      else [word_of_int (BITS7 AND num)])"
  by pat_completeness auto
termination
  by (relation "measure nat") (auto simp: BITS7_def)

declare writeVarUint.simps [simp del]

text \<open>Modelled from the spec: lib0's \<open>writeVarUint8Array\<close>, the ``length-prefixed byte
  block'':
  \<^verbatim>\<open>writeVarUint8Array = (encoder, uint8Array) => {
    writeVarUint(encoder, uint8Array.byteLength); writeUint8Array(encoder, uint8Array) }\<close>\<close>

definition writeVarUint8Array :: "bytes \<Rightarrow> bytes" where
  "writeVarUint8Array uint8Array = writeVarUint (int (length uint8Array)) @ uint8Array"

text \<open>Modelled from the spec: lib0's \<open>readVarUint\<close>. The decoder is the list of bytes from
  its position on; the function returns the number and the rest.

  \<^verbatim>\<open>
  readVarUint = decoder => {
    let num = 0; let mult = 1
    const len = decoder.arr.length
    while (decoder.pos < len) {
      const r = decoder.arr[decoder.pos++]
      num = num + (r & BITS7) * mult
      mult *= 128
      if (r < BIT8) { return num }
      if (num > MAX_SAFE_INTEGER) { throw errorIntegerOutOfRange }
    }
    throw errorUnexpectedEndOfArray
  }
  \<close>\<close>

fun readVarUintLoop :: "int \<Rightarrow> int \<Rightarrow> bytes \<Rightarrow> js_error + (int \<times> bytes)" where
  "readVarUintLoop num mult [] = Inl UnexpectedEndOfArray"
| "readVarUintLoop num mult (r # arr) =
     (let num' = num + (uint r AND BITS7) * mult;
          mult' = mult * 128
      in if uint r < BIT8 then Inr (num', arr)
         else if num' > MAX_SAFE_INTEGER then Inl IntegerOutOfRange
         else readVarUintLoop num' mult' arr)"

text \<open>Modelled from the spec: \<open>readVarUint\<close> starts the loop with \<open>num = 0\<close> and
  \<open>mult = 1\<close>.\<close>

definition readVarUint :: "bytes \<Rightarrow> js_error + (int \<times> bytes)" where
  "readVarUint arr = readVarUintLoop 0 1 arr"

text \<open>Modelled from the spec: lib0's \<open>readVarUint8Array\<close>,
  \<^verbatim>\<open>readUint8Array(decoder, readVarUint(decoder))\<close>, where \<open>readUint8Array\<close> builds a
  view of \<open>len\<close> bytes at the position; the \<open>Uint8Array\<close> constructor throws a
  \<open>RangeError\<close> when the view does not fit.\<close>

definition readVarUint8Array :: "bytes \<Rightarrow> js_error + (bytes \<times> bytes)" where
  "readVarUint8Array arr =
     (case readVarUint arr of
        Inl e \<Rightarrow> Inl e
      | Inr (len, rest) \<Rightarrow>
          if 0 \<le> len \<and> nat len \<le> length rest
          then Inr (take (nat len) rest, drop (nat len) rest)
          else Inl RangeError)"

text \<open>\<open>encodeStateVector\<close> (utils.js, lines 226-231).\<close>

definition encodeStateVector :: "int \<Rightarrow> bytes \<Rightarrow> bytes" where
  "encodeStateVector clock sv = writeVarUint clock @ writeVarUint8Array sv"

text \<open>What \<open>decodeMongodbStateVector\<close> can be handed: a Node \<open>Buffer\<close>, the driver's
  \<open>Binary\<close> (whose \<^verbatim>\<open>.buffer\<close> is a \<open>Buffer\<close>; the store returns every stored byte value
  as one), a plain \<open>Uint8Array\<close> (not a \<open>Buffer\<close>, and its \<^verbatim>\<open>.buffer\<close> is an
  \<open>ArrayBuffer\<close>), or nothing.\<close>

datatype js_buf = Buffer bytes | Binary bytes | Uint8Array bytes | Undefined

text \<open>\<open>decodeMongodbStateVector\<close> (utils.js, lines 438-450). The result is the pair
  \<^verbatim>\<open>{ sv, clock }\<close>.\<close>

definition decodeMongodbStateVector :: "js_buf \<Rightarrow> js_error + (bytes \<times> int)" where
  "decodeMongodbStateVector buf =
     (case (case buf of Buffer b \<Rightarrow> Inr b | Binary b \<Rightarrow> Inr b | _ \<Rightarrow> Inl NoBufferProvided) of
        Inl e \<Rightarrow> Inl e
      | Inr decoder \<Rightarrow>
          (case readVarUint decoder of
             Inl e \<Rightarrow> Inl e
           | Inr (clock, decoder') \<Rightarrow>
               (case readVarUint8Array decoder' of
                  Inl e \<Rightarrow> Inl e
                | Inr (sv, _) \<Rightarrow> Inr (sv, clock))))"

section \<open>Records of the collection and queries\<close>

text \<open>A record of the collection. The source writes update records
  \<^verbatim>\<open>{version: 'v1', action: 'update', docName, clock, part?, value}\<close>, state-vector records
  \<^verbatim>\<open>{version: 'v1_sv', docName, value}\<close> and meta records
  \<^verbatim>\<open>{version: 'v1', docName, metaKey, value}\<close>; a field a record does not have is
  \<open>None\<close>. The byte value is held as the bytes themselves.\<close>

record mongo_doc =
  version :: "string option"
  action :: "string option"
  docName :: "string option"
  clock :: "int option"
  part :: "int option"
  metaKey :: "string option"
  val :: bytes

text \<open>A filter or locator object as the source builds them: every field is optional, and
  \<open>clock\<close> is compared for equality or against \<^verbatim>\<open>{$gte: from, $lt: to}\<close>.\<close>

datatype clock_query = ClockEq int | ClockRange int int

record mongo_query =
  q_version :: "string option"
  q_action :: "string option"
  q_docName :: "string option"
  q_clock :: "clock_query option"
  q_part :: "int option"
  q_metaKey :: "string option"

text \<open>\<open>createDocumentUpdateKey\<close> (utils.js, lines 35-50): the \<open>clock\<close> field is present only
  when the argument is not \<open>undefined\<close>.\<close>

definition createDocumentUpdateKey :: "string \<Rightarrow> int option \<Rightarrow> mongo_query" where
  "createDocumentUpdateKey docName' clock' =
     \<lparr>q_version = Some ''v1'', q_action = Some ''update'', q_docName = Some docName',
      q_clock = map_option ClockEq clock', q_part = None, q_metaKey = None\<rparr>"

text \<open>\<open>createDocumentStateVectorKey\<close> (utils.js, lines 57-60).\<close>

definition createDocumentStateVectorKey :: "string \<Rightarrow> mongo_query" where
  "createDocumentStateVectorKey docName' =
     \<lparr>q_version = Some ''v1_sv'', q_action = None, q_docName = Some docName',
      q_clock = None, q_part = None, q_metaKey = None\<rparr>"

text \<open>\<open>createDocumentMetaKey\<close> (utils.js, lines 67-71).\<close>

definition createDocumentMetaKey :: "string \<Rightarrow> string \<Rightarrow> mongo_query" where
  "createDocumentMetaKey docName' metaKey' =
     \<lparr>q_version = Some ''v1'', q_action = None, q_docName = Some docName',
      q_clock = None, q_part = None, q_metaKey = Some (''meta_'' @ metaKey')\<rparr>"

section \<open>The store adapter\<close>

text \<open>Modelled from the spec: the store adapter (\<^verbatim>\<open>./mongo-adapter.js\<close>, imported by both
  source files, is not under src/). The spec gives its contract:
  ``\<^verbatim>\<open>find(filter) -> records\<close>, \<^verbatim>\<open>findOne(filter, {reverse?}) -> record|absent\<close>,
  \<^verbatim>\<open>put(locator, value)\<close>, \<^verbatim>\<open>delete(filter) -> result\<close>, \<^verbatim>\<open>bulkPut(map)\<close>,
  \<^verbatim>\<open>bulkInsert(map)\<close>'', ``insert/upsert'', ``upsert-style or insert-only semantics'', and
  that a range query yields the records ``ordered by \<^verbatim>\<open>(clock, part)\<close>''.
  The collection is the list of its records in insertion order. A record matches a filter
  when it has every field of the filter with the filter's value (or within its range). The
  store itself never fails in this model; transient failures are modelled where the retry
  wrapper is.\<close>

type_synonym store = "mongo_doc list"

text \<open>Modelled from the spec: a filter's field matches a record's field when the filter does
  not have it or the record has it with the same value; a clock range
  \<^verbatim>\<open>{$gte: from, $lt: to}\<close> matches a clock within it; a record matches when all its fields
  do.\<close>

definition field_matches :: "'a option \<Rightarrow> 'a option \<Rightarrow> bool" where
  "field_matches q f = (case q of None \<Rightarrow> True | Some x \<Rightarrow> f = Some x)"

definition clock_matches :: "clock_query option \<Rightarrow> int option \<Rightarrow> bool" where
  "clock_matches q c =
     (case q of
        None \<Rightarrow> True
      | Some (ClockEq x) \<Rightarrow> c = Some x
      | Some (ClockRange from to) \<Rightarrow> (case c of None \<Rightarrow> False | Some y \<Rightarrow> from \<le> y \<and> y < to))"

definition matches :: "mongo_query \<Rightarrow> mongo_doc \<Rightarrow> bool" where
  "matches q d \<longleftrightarrow>
     field_matches (q_version q) (version d) \<and> field_matches (q_action q) (action d) \<and>
     field_matches (q_docName q) (docName d) \<and> clock_matches (q_clock q) (clock d) \<and>
     field_matches (q_part q) (part d) \<and> field_matches (q_metaKey q) (metaKey d)"

text \<open>Modelled from the spec: the record an upsert or an insert creates from a locator and a
  value: the locator's fields and the value.\<close>

definition newRecord :: "mongo_query \<Rightarrow> bytes \<Rightarrow> mongo_doc" where
  "newRecord q v =
     \<lparr>version = q_version q, action = q_action q, docName = q_docName q,
      clock = (case q_clock q of Some (ClockEq c) \<Rightarrow> Some c | _ \<Rightarrow> None),
      part = q_part q, metaKey = q_metaKey q, val = v\<rparr>"

text \<open>Modelled from the spec: \<open>find\<close>, the matching records ordered by \<open>(clock, part)\<close>; a
  record without the field sorts first.\<close>

definition db_find :: "store \<Rightarrow> mongo_query \<Rightarrow> mongo_doc list" where
  "db_find db q = sort_key (\<lambda>d. (clock d, part d)) (filter (matches q) db)"

text \<open>Modelled from the spec: \<open>findOne\<close>, the first record of that order, or of the reverse
  order with \<^verbatim>\<open>{reverse: true}\<close>; \<open>None\<close> when no record matches.\<close>

definition db_findOne :: "store \<Rightarrow> mongo_query \<Rightarrow> bool \<Rightarrow> mongo_doc option" where
  "db_findOne db q reverse =
     (case (if reverse then rev (db_find db q) else db_find db q) of
        [] \<Rightarrow> None
      | d # _ \<Rightarrow> Some d)"

text \<open>Modelled from the spec: \<open>put\<close>, an upsert: the first record matching the locator gets
  the value; when none matches a new record is appended.\<close>

fun db_put :: "store \<Rightarrow> mongo_query \<Rightarrow> bytes \<Rightarrow> store" where
  "db_put [] q v = [newRecord q v]"
| "db_put (d # ds) q v = (if matches q d then d\<lparr>val := v\<rparr> # ds else d # db_put ds q v)"

text \<open>Modelled from the spec: \<open>delete\<close> removes every matching record.\<close>

definition db_delete :: "store \<Rightarrow> mongo_query \<Rightarrow> store" where
  "db_delete db q = filter (\<lambda>d. \<not> matches q d) db"

text \<open>Modelled from the spec: \<open>bulkPut\<close> upserts every entry of the map, \<open>bulkInsert\<close>
  inserts a new record for every entry. The map is the list of its entries
  \<open>(identifier, (locator, value))\<close>.\<close>

type_synonym bulk_map = "(string \<times> (mongo_query \<times> bytes)) list"

definition db_bulkPut :: "store \<Rightarrow> bulk_map \<Rightarrow> store" where
  "db_bulkPut db m = fold (\<lambda>(_, (q, v)) db'. db_put db' q v) m db"

definition db_bulkInsert :: "store \<Rightarrow> bulk_map \<Rightarrow> store" where
  "db_bulkInsert db m = db @ map (\<lambda>(_, (q, v)). newRecord q v) m"

section \<open>The collaboration engine\<close>

text \<open>Yjs is an external capability. The source uses \<^verbatim>\<open>new Y.Doc()\<close>,
  \<^verbatim>\<open>Y.applyUpdate\<close>, \<^verbatim>\<open>Y.encodeStateAsUpdate\<close> and \<^verbatim>\<open>Y.encodeStateVector\<close>; they are
  the fields of a parameter, over any type \<open>'d\<close> of documents.\<close>

record 'd yjs =
  Y_Doc :: 'd
  Y_applyUpdate :: "'d \<Rightarrow> bytes \<Rightarrow> 'd"
  Y_encodeStateAsUpdate :: "'d \<Rightarrow> bytes"
  Y_encodeStateVector :: "'d \<Rightarrow> bytes"

section \<open>utils.js\<close>

text \<open>\<open>clearUpdatesRange\<close> (lines 20-27): the filter has \<open>docName\<close> and the clock range only.\<close>

definition clearUpdatesRange :: "store \<Rightarrow> string \<Rightarrow> int \<Rightarrow> int \<Rightarrow> store" where
  "clearUpdatesRange db docName' from to =
     db_delete db
       \<lparr>q_version = None, q_action = None, q_docName = Some docName',
        q_clock = Some (ClockRange from to), q_part = None, q_metaKey = None\<rparr>"

text \<open>JavaScript's truth value of \<^verbatim>\<open>doc.part\<close>: \<open>undefined\<close> and \<open>0\<close> are false.\<close>

definition truthy :: "int option \<Rightarrow> bool" where
  "truthy n = (case n of None \<Rightarrow> False | Some k \<Rightarrow> k \<noteq> 0)"

text \<open>The inner loop of \<open>convertMongoUpdates\<close> (lines 103-114), started at \<open>j = i + 1\<close> on the
  records from there on: it returns the buffers it pushed onto \<open>parts\<close> and the number of
  records it went over, \<open>j - (i + 1)\<close>, or the thrown error.\<close>

fun mergeParts :: "int option \<Rightarrow> int \<Rightarrow> mongo_doc list \<Rightarrow> js_error + (bytes list \<times> nat)" where
  "mergeParts docClock currentPartId [] = Inr ([], 0)"
| "mergeParts docClock currentPartId (p # ps) =
     (case part p of
        None \<Rightarrow> Inr ([], 0)
      | Some k \<Rightarrow>
          if k \<noteq> 0 \<and> clock p = docClock then
            if currentPartId \<noteq> k - 1 then Inl CorruptChunkSequence
            else (case mergeParts docClock k ps of
                    Inl e \<Rightarrow> Inl e
                  | Inr (parts, n) \<Rightarrow> Inr (val p # parts, Suc n))
          else Inr ([], 0))"

text \<open>\<open>convertMongoUpdates\<close> (lines 89-121). \<^verbatim>\<open>Buffer.concat(parts)\<close> is \<open>concat\<close>; after a
  merged group the outer loop goes on at \<open>j\<close>. A record whose part is neither false nor \<open>1\<close>
  matches no branch and is passed over.\<close>

function convertMongoUpdates :: "mongo_doc list \<Rightarrow> js_error + bytes list" where
  "convertMongoUpdates [] = Inr []"
| "convertMongoUpdates (doc # docs) =
     (if \<not> truthy (part doc) then
        (case convertMongoUpdates docs of
           Inl e \<Rightarrow> Inl e
         | Inr updates \<Rightarrow> Inr (val doc # updates))
      else if part doc = Some 1 then
        (case mergeParts (clock doc) 1 docs of
           Inl e \<Rightarrow> Inl e
         | Inr (parts, n) \<Rightarrow>
             (case convertMongoUpdates (drop n docs) of
                Inl e \<Rightarrow> Inl e
              | Inr updates \<Rightarrow> Inr (concat (val doc # parts) # updates)))
      else convertMongoUpdates docs)"
  by pat_completeness auto
termination
  by (relation "measure length") auto

text \<open>\<open>getMongoUpdates\<close> (lines 130-135).\<close>

definition getMongoUpdates :: "store \<Rightarrow> string \<Rightarrow> js_error + bytes list" where
  "getMongoUpdates db docName' =
     convertMongoUpdates (db_find db (createDocumentUpdateKey docName' None))"

text \<open>\<open>getCurrentUpdateClock\<close> (lines 142-160). The record \<open>findOne\<close> returns matched the
  clock range, so it has a clock.\<close>

definition currentClockQuery :: "string \<Rightarrow> mongo_query" where
  "currentClockQuery docName' =
     (createDocumentUpdateKey docName' (Some 0))\<lparr>q_clock := Some (ClockRange 0 BITS32)\<rparr>"

definition getCurrentUpdateClock :: "store \<Rightarrow> string \<Rightarrow> int" where
  "getCurrentUpdateClock db docName' =
     (case db_findOne db (currentClockQuery docName') True of
        None \<Rightarrow> - 1
      | Some update \<Rightarrow> the (clock update))"

text \<open>\<open>writeStateVector\<close> (lines 169-176).\<close>

definition writeStateVector :: "store \<Rightarrow> string \<Rightarrow> bytes \<Rightarrow> int \<Rightarrow> store" where
  "writeStateVector db docName' sv clock' =
     db_put db (createDocumentStateVectorKey docName') (writeVarUint clock' @ writeVarUint8Array sv)"

text \<open>The chunks of an update too large for one record (lines 201-207, and the same lines
  in \<open>storeUpdates\<close> and \<open>insertUpdates\<close>): \<^verbatim>\<open>Math.ceil(update.length / MAX_DOCUMENT_SIZE)\<close>
  chunks, chunk \<open>i\<close> being \<^verbatim>\<open>update.subarray(start, end)\<close>. The quotient of two array
  lengths is far from the next integer by more than the rounding of the division, so the
  ceiling is the integer one.\<close>

definition totalChunks :: "bytes \<Rightarrow> nat" where
  "totalChunks update = (length update + MAX_DOCUMENT_SIZE - 1) div MAX_DOCUMENT_SIZE"

definition chunkOf :: "bytes \<Rightarrow> nat \<Rightarrow> bytes" where
  "chunkOf update i =
     (let start = i * MAX_DOCUMENT_SIZE;
          end' = min (start + MAX_DOCUMENT_SIZE) (length update)
      in take (end' - start) (drop start update))"

text \<open>Lines 196-215 of \<open>storeUpdate\<close>: one \<open>put\<close>, or one per chunk with \<open>part = i + 1\<close>. The
  chunk writes are issued in the order of \<open>i\<close> and awaited together; their locators differ,
  and the model performs them in that order.\<close>

definition putUpdateRecords :: "store \<Rightarrow> string \<Rightarrow> int \<Rightarrow> bytes \<Rightarrow> store" where
  "putUpdateRecords db docName' clock' update =
     (if length update \<le> MAX_DOCUMENT_SIZE
      then db_put db (createDocumentUpdateKey docName' (Some clock')) update
      else fold (\<lambda>i db'. db_put db'
                   ((createDocumentUpdateKey docName' (Some clock'))\<lparr>q_part := Some (int i + 1)\<rparr>)
                   (chunkOf update i))
             [0 ..< totalChunks update] db)"

text \<open>\<open>storeUpdate\<close> (lines 184-218): the new store and the returned clock.\<close>

definition storeUpdate :: "'d yjs \<Rightarrow> store \<Rightarrow> string \<Rightarrow> bytes \<Rightarrow> store \<times> int" where
  "storeUpdate Y db docName' update =
     (let clock' = getCurrentUpdateClock db docName';
          db1 = (if clock' = - 1
                 then writeStateVector db docName'
                        (Y_encodeStateVector Y (Y_applyUpdate Y (Y_Doc Y) update)) 0
                 else db)
      in (putUpdateRecords db1 docName' (clock' + 1) update, clock' + 1))"

text \<open>\<open>retryMongoOperation\<close> (lines 237-257). A task is a computation on a state \<open>'s\<close> that
  returns a value or throws; every attempt runs it on the state the attempt before left.
  The result also lists the delays slept, in order.\<close>

definition isRetryable :: "js_error \<Rightarrow> bool" where
  "isRetryable error \<longleftrightarrow>
     error = MongoNetworkError \<or> error = MongoNetworkTimeoutError \<or> error = MongoBulkWriteError"

function retryLoop ::
  "('s \<Rightarrow> (js_error + 'a) \<times> 's) \<Rightarrow> nat \<Rightarrow> nat \<Rightarrow> nat \<Rightarrow> js_error option \<Rightarrow> 's \<Rightarrow> nat list
   \<Rightarrow> (js_error + 'a) \<times> 's \<times> nat list" where
  "retryLoop task retries delay attempt lastError s slept =
     (if attempt \<le> retries then
        (case task s of
           (Inr v, s') \<Rightarrow> (Inr v, s', slept)
         | (Inl error, s') \<Rightarrow>
             if isRetryable error then
               if attempt < retries
               then retryLoop task retries delay (attempt + 1) (Some error) s' (slept @ [delay])
               else retryLoop task retries delay (attempt + 1) (Some error) s' slept
             else (Inl error, s', slept))
      else (Inl (case lastError of None \<Rightarrow> ThrownUndefined | Some e \<Rightarrow> e), s, slept))"
  by pat_completeness auto
termination
  by (relation "measure (\<lambda>(task, retries, delay, attempt, lastError, s, slept). Suc retries - attempt)")
    auto

declare retryLoop.simps [simp del]

definition retryMongoOperation ::
  "('s \<Rightarrow> (js_error + 'a) \<times> 's) \<Rightarrow> nat \<Rightarrow> nat \<Rightarrow> 's \<Rightarrow> (js_error + 'a) \<times> 's \<times> nat list" where
  "retryMongoOperation task retries delay s = retryLoop task retries delay 1 None s []"

text \<open>The decimal digits of \<^verbatim>\<open>i + 1\<close> in the template string
  \<^verbatim>\<open>`${docName}-part${i + 1}`\<close>.\<close>

function showNat :: "nat \<Rightarrow> string" where
  "showNat n =
     (if n < 10 then [''0123456789'' ! n]
      else showNat (n div 10) @ [''0123456789'' ! (n mod 10)])"
  by pat_completeness auto
termination
  by (relation "measure id") auto

declare showNat.simps [simp del]

text \<open>An assignment \<^verbatim>\<open>map[key] = value\<close> to an object created by the literal \<^verbatim>\<open>{}\<close>, with an
  object as the value, seen through \<^verbatim>\<open>Object.entries(map)\<close>. The own properties are an
  association list: a key the object has keeps its place and takes the new value, any other
  key is appended. (JavaScript lists keys that are canonical array indices before the
  others; that order only decides the order of the writes.) The key \<^verbatim>\<open>__proto__\<close> is the
  accessor inherited from \<^verbatim>\<open>Object.prototype\<close>: assigning an object to it replaces the
  prototype of the map and adds no own property, so the entries stay as they are.\<close>

definition objectAssign :: "string \<Rightarrow> 'v \<Rightarrow> (string \<times> 'v) list \<Rightarrow> (string \<times> 'v) list" where
  "objectAssign key v obj = (if key = ''__proto__'' then obj else AList.update key v obj)"

text \<open>The body of the callback over \<^verbatim>\<open>Object.entries(updatesMap)\<close>, the same text in
  \<open>storeUpdates\<close> (lines 274-313) and in \<open>insertUpdates\<close> (lines 367-406). It has no
  \<open>await\<close>, so the callbacks run one after the other in the order of the entries. The two
  objects \<open>stateVectorMap\<close> and \<open>updateMap\<close> are the lists of their entries, assigned to with
  \<open>objectAssign\<close>. \<open>clock'\<close> is the variable \<^verbatim>\<open>let clock = -1\<close> of the caller, which no line
  assigns again.\<close>

definition bulkEntry ::
  "'d yjs \<Rightarrow> int \<Rightarrow> string \<times> bytes \<Rightarrow> bulk_map \<times> bulk_map \<Rightarrow> bulk_map \<times> bulk_map" where
  "bulkEntry Y clock' entry maps =
     (case entry of (docName', update) \<Rightarrow>
      case maps of (stateVectorMap, updateMap) \<Rightarrow>
        (let stateVectorMap' =
               (if clock' = - 1
                then objectAssign docName'
                       (createDocumentStateVectorKey docName',
                        encodeStateVector clock'
                          (Y_encodeStateVector Y (Y_applyUpdate Y (Y_Doc Y) update)))
                       stateVectorMap
                else stateVectorMap);
             updateMap' =
               (if length update \<le> MAX_DOCUMENT_SIZE
                then objectAssign docName'
                       (createDocumentUpdateKey docName' (Some (clock' + 1)), update) updateMap
                else fold (\<lambda>i m. objectAssign (docName' @ ''-part'' @ showNat (i + 1))
                             ((createDocumentUpdateKey docName' (Some (clock' + 1)))
                                \<lparr>q_part := Some (int i + 1)\<rparr>,
                              chunkOf update i) m)
                       [0 ..< totalChunks update] updateMap)
         in (stateVectorMap', updateMap')))"

definition bulkMaps :: "'d yjs \<Rightarrow> int \<Rightarrow> (string \<times> bytes) list \<Rightarrow> bulk_map \<times> bulk_map" where
  "bulkMaps Y clock' updatesMap = fold (bulkEntry Y clock') updatesMap ([], [])"

text \<open>\<^verbatim>\<open>Promise.all\<close> over settled operations: the first rejection, or success.\<close>

fun awaitAll :: "(js_error + unit) list \<Rightarrow> js_error + unit" where
  "awaitAll [] = Inr ()"
| "awaitAll (Inl e # rs) = Inl e"
| "awaitAll (Inr _ # rs) = awaitAll rs"

text \<open>\<open>bulkWriteWithConcurrency\<close> (lines 317-337), a closure of \<open>storeUpdates\<close> that is only
  called with \<^verbatim>\<open>concurrencyLimit = 50\<close>. \<open>entrySlices\<close> are the successive
  \<^verbatim>\<open>entries.slice(i, i + concurrencyLimit)\<close>. Each batch is written under
  \<^verbatim>\<open>retryMongoOperation(() => db.bulkPut(chunk), 3, 1000)\<close>; the model performs the batches
  in the order they are started.\<close>

definition concurrencyLimit :: nat where
  "concurrencyLimit = 50"

function entrySlices :: "'a list \<Rightarrow> 'a list list" where
  "entrySlices entries =
     (if entries = [] then []
      else take concurrencyLimit entries # entrySlices (drop concurrencyLimit entries))"
  by pat_completeness auto
termination
  by (relation "measure length") (auto simp: concurrencyLimit_def)

declare entrySlices.simps [simp del]

fun bulkWriteLoop ::
  "bulk_map list \<Rightarrow> store \<Rightarrow> (js_error + unit) list \<Rightarrow> nat list
   \<Rightarrow> (js_error + unit) \<times> store \<times> nat list" where
  "bulkWriteLoop [] db batchOperations slept =
     (if length batchOperations > 0 then (awaitAll batchOperations, db, slept)
      else (Inr (), db, slept))"
| "bulkWriteLoop (chunk # chunks) db batchOperations slept =
     (case retryMongoOperation (\<lambda>s. (Inr (), db_bulkPut s chunk)) 3 1000 db of
        (r, db', slept') \<Rightarrow>
          (let batchOperations' = batchOperations @ [r] in
           if length batchOperations' \<ge> concurrencyLimit then
             (case awaitAll batchOperations' of
                Inl e \<Rightarrow> (Inl e, db', slept @ slept')
              | Inr _ \<Rightarrow> bulkWriteLoop chunks db' [] (slept @ slept' @ [100]))
           else bulkWriteLoop chunks db' batchOperations' (slept @ slept')))"

definition bulkWriteWithConcurrency ::
  "store \<Rightarrow> bulk_map \<Rightarrow> (js_error + unit) \<times> store \<times> nat list" where
  "bulkWriteWithConcurrency db m = bulkWriteLoop (entrySlices m) db [] []"

text \<open>\<open>storeUpdates\<close> (lines 264-350): the returned clock or the thrown error, and the new
  store. The two bulk writes are started together; they touch different records (one the
  state-vector records, one the update records) and the model performs the state-vector
  one first.\<close>

definition storeUpdates ::
  "'d yjs \<Rightarrow> store \<Rightarrow> (string \<times> bytes) list \<Rightarrow> (js_error + int) \<times> store" where
  "storeUpdates Y db updatesMap =
     (let clock' = - 1 in
      case bulkMaps Y clock' updatesMap of (stateVectorMap, updateMap) \<Rightarrow>
      case bulkWriteWithConcurrency db stateVectorMap of (r1, db1, _) \<Rightarrow>
      case bulkWriteWithConcurrency db1 updateMap of (r2, db2, _) \<Rightarrow>
        (case awaitAll [r1, r2] of
           Inl e \<Rightarrow> (Inl e, db2)
         | Inr _ \<Rightarrow> (Inr (clock' + 1), db2)))"

text \<open>\<open>insertUpdates\<close> (lines 357-415): each \<open>bulkInsert\<close> is awaited before the next
  starts.\<close>

definition insertUpdates ::
  "'d yjs \<Rightarrow> store \<Rightarrow> (string \<times> bytes) list \<Rightarrow> (js_error + int) \<times> store" where
  "insertUpdates Y db updatesMap =
     (let clock' = - 1 in
      case bulkMaps Y clock' updatesMap of (stateVectorMap, updateMap) \<Rightarrow>
      case retryMongoOperation (\<lambda>s. (Inr (), db_bulkInsert s stateVectorMap)) 3 1000 db of
        (Inl e, db1, _) \<Rightarrow> (Inl e, db1)
      | (Inr _, db1, _) \<Rightarrow>
          (case retryMongoOperation (\<lambda>s. (Inr (), db_bulkInsert s updateMap)) 3 1000 db1 of
             (Inl e, db2, _) \<Rightarrow> (Inl e, db2)
           | (Inr _, db2, _) \<Rightarrow> (Inr (clock' + 1), db2)))"

text \<open>\<open>mergeUpdates\<close> (lines 424-432).\<close>

definition mergeUpdates :: "'d yjs \<Rightarrow> bytes list \<Rightarrow> bytes \<times> bytes" where
  "mergeUpdates Y updates =
     (let ydoc = foldl (Y_applyUpdate Y) (Y_Doc Y) updates
      in (Y_encodeStateAsUpdate Y ydoc, Y_encodeStateVector Y ydoc))"

text \<open>\<open>readStateVector\<close> (lines 456-463): \<^verbatim>\<open>{ sv: null, clock: -1 }\<close> when there is no
  record, else the decoded record; the store hands the value over as a \<open>Binary\<close>.\<close>

definition readStateVector :: "store \<Rightarrow> string \<Rightarrow> js_error + (bytes option \<times> int)" where
  "readStateVector db docName' =
     (case db_findOne db (createDocumentStateVectorKey docName') False of
        None \<Rightarrow> Inr (None, - 1)
      | Some doc \<Rightarrow>
          (case decodeMongodbStateVector (Binary (val doc)) of
             Inl e \<Rightarrow> Inl e
           | Inr (sv, clock') \<Rightarrow> Inr (Some sv, clock')))"

text \<open>\<open>flushDocument\<close> of utils.js (lines 479-484).\<close>

definition flushDocument :: "'d yjs \<Rightarrow> store \<Rightarrow> string \<Rightarrow> bytes \<Rightarrow> bytes \<Rightarrow> store \<times> int" where
  "flushDocument Y db docName' stateAsUpdate stateVector =
     (case storeUpdate Y db docName' stateAsUpdate of (db1, clock') \<Rightarrow>
        (let db2 = writeStateVector db1 docName' stateVector clock';
             db3 = clearUpdatesRange db2 docName' 0 clock'
         in (db3, clock')))"

section \<open>The class MongodbPersistence\<close>

text \<open>A transaction is the function \<open>f\<close> handed to \<open>_transact\<close>: run on the store it
  returns a value or throws, and leaves a store. A promise is settled with a value or
  rejected with an error. The world a promise runs in is the store and the console.\<close>

type_synonym 'a transaction = "store \<Rightarrow> (js_error + 'a) \<times> store"

datatype 'a settled = Resolved 'a | Rejected js_error

record world =
  w_db :: store
  w_console :: "js_error list"

text \<open>A promise of the chain is the computation it stands for: run on the world in which the
  chain starts, it performs everything the chain holds up to and including its own
  operation and gives how it settles. The value \<open>null\<close> (and the \<open>undefined\<close> of
  \<^verbatim>\<open>promise.resolve()\<close>) is \<open>None\<close>.\<close>

type_synonym 'a promise = "world \<Rightarrow> 'a option settled \<times> world"

definition promise_resolve :: "'a promise" where
  "promise_resolve = (\<lambda>w. (Resolved None, w))"

text \<open>\<open>_transact\<close> (the class file, lines 37-56): the new table \<open>this.tr\<close> and the returned
  promise. \<^verbatim>\<open>await currTr\<close> is outside the \<open>try\<close>: a rejected \<open>currTr\<close> would reject the
  new promise. \<^verbatim>\<open>console.warn("Error during saving transaction", err)\<close> appends the error
  to the console.\<close>

definition transact ::
  "(string \<rightharpoonup> 'a promise) \<Rightarrow> string \<Rightarrow> 'a transaction \<Rightarrow> (string \<rightharpoonup> 'a promise) \<times> 'a promise" where
  "transact tr docName' f =
     (let currTr = (case tr docName' of None \<Rightarrow> promise_resolve | Some p \<Rightarrow> p);
          newTr = (\<lambda>w.
            case currTr w of
              (Rejected e, w1) \<Rightarrow> (Rejected e, w1)
            | (Resolved _, w1) \<Rightarrow>
                (case f (w_db w1) of
                   (Inr res, db') \<Rightarrow> (Resolved (Some res), w1\<lparr>w_db := db'\<rparr>)
                 | (Inl err, db') \<Rightarrow>
                     (Resolved None, \<lparr>w_db = db', w_console = w_console w1 @ [err]\<rparr>)))
      in (tr(docName' \<mapsto> newTr), newTr))"

text \<open>The transaction of \<open>MongodbPersistence.storeUpdate\<close> (lines 88-90).\<close>

definition storeUpdate_tx :: "'d yjs \<Rightarrow> string \<Rightarrow> bytes \<Rightarrow> int transaction" where
  "storeUpdate_tx Y docName' update =
     (\<lambda>db. case storeUpdate Y db docName' update of (db', clock') \<Rightarrow> (Inr clock', db'))"

text \<open>The transaction of \<open>MongodbPersistence.getStateVector\<close> (lines 100-117).\<close>

definition getStateVector_tx :: "'d yjs \<Rightarrow> string \<Rightarrow> bytes transaction" where
  "getStateVector_tx Y docName' =
     (\<lambda>db.
        case readStateVector db docName' of
          Inl e \<Rightarrow> (Inl e, db)
        | Inr (sv, clock') \<Rightarrow>
            (let curClock = (if sv \<noteq> None then getCurrentUpdateClock db docName' else - 1) in
             if sv \<noteq> None \<and> clock' = curClock then (Inr (the sv), db)
             else
               (case getMongoUpdates db docName' of
                  Inl e \<Rightarrow> (Inl e, db)
                | Inr updates \<Rightarrow>
                    (case mergeUpdates Y updates of (update, sv') \<Rightarrow>
                     case flushDocument Y db docName' update sv' of (db', _) \<Rightarrow>
                       (Inr sv', db')))))"

text \<open>The transaction of \<open>MongodbPersistence.flushDocument\<close> (lines 224-230).\<close>

definition flushDocument_tx :: "'d yjs \<Rightarrow> string \<Rightarrow> unit transaction" where
  "flushDocument_tx Y docName' =
     (\<lambda>db.
        case getMongoUpdates db docName' of
          Inl e \<Rightarrow> (Inl e, db)
        | Inr updates \<Rightarrow>
            (case mergeUpdates Y updates of (update, sv) \<Rightarrow>
             case flushDocument Y db docName' update sv of (db', _) \<Rightarrow> (Inr (), db')))"

section \<open>Notions the claims are stated with\<close>

text \<open>The records lines 196-215 of \<open>storeUpdate\<close> create for an update when no stored record
  matches their locators: one record without a part, or one per chunk, parts \<open>1, 2, \<dots>\<close>.\<close>

definition updateRecords :: "string \<Rightarrow> int \<Rightarrow> bytes \<Rightarrow> mongo_doc list" where
  "updateRecords docName' clock' update =
     (if length update \<le> MAX_DOCUMENT_SIZE
      then [newRecord (createDocumentUpdateKey docName' (Some clock')) update]
      else map (\<lambda>i. newRecord
                   ((createDocumentUpdateKey docName' (Some clock'))\<lparr>q_part := Some (int i + 1)\<rparr>)
                   (chunkOf update i))
             [0 ..< totalChunks update])"

text \<open>A record sequence is ordered when it is sorted by \<open>(clock, part)\<close>, as the range
  query returns it.\<close>

definition orderedRecords :: "mongo_doc list \<Rightarrow> bool" where
  "orderedRecords docs = sorted (map (\<lambda>d. (clock d, part d)) docs)"

text \<open>The part numbers of the records flagged with a part for one clock, in the order of
  the sequence; they are contiguous when they are \<open>1, 2, \<dots>, n\<close>.\<close>

definition partsOfClock :: "int option \<Rightarrow> mongo_doc list \<Rightarrow> int list" where
  "partsOfClock c docs =
     List.map_filter (\<lambda>d. if truthy (part d) \<and> clock d = c then part d else None) docs"

definition contiguousParts :: "int list \<Rightarrow> bool" where
  "contiguousParts ps = (ps = map (\<lambda>j. int j + 1) [0 ..< length ps])"

text \<open>Some clock of the sequence has flagged records whose parts are not contiguous.\<close>

definition brokenSequence :: "mongo_doc list \<Rightarrow> bool" where
  "brokenSequence docs =
     list_ex (\<lambda>d. truthy (part d) \<and> \<not> contiguousParts (partsOfClock (clock d) docs)) docs"

text \<open>The assumption of the comment above \<open>convertMongoUpdates\<close> (``the parts of a split
  document are ordered and located exactly after the document with part number 1''): the
  first flagged record of every clock is its part 1.\<close>

definition partOneFirst :: "mongo_doc list \<Rightarrow> bool" where
  "partOneFirst docs =
     list_all (\<lambda>d. truthy (part d) \<longrightarrow>
                 (case partsOfClock (clock d) docs of [] \<Rightarrow> False | k # _ \<Rightarrow> k = 1)) docs"

text \<open>The store after the first step of \<open>storeUpdate\<close> (lines 185-192): the state-vector
  record is written when the current clock is \<open>-1\<close>.\<close>

definition firstStateVector :: "'d yjs \<Rightarrow> store \<Rightarrow> string \<Rightarrow> bytes \<Rightarrow> store" where
  "firstStateVector Y db docName' update =
     (if getCurrentUpdateClock db docName' = - 1
      then writeStateVector db docName'
             (Y_encodeStateVector Y (Y_applyUpdate Y (Y_Doc Y) update)) 0
      else db)"

text \<open>Successive \<open>storeUpdate\<close> calls on one document, each awaited before the next: the
  final store and the clocks returned, in order.\<close>

fun storeUpdateSeq :: "'d yjs \<Rightarrow> store \<Rightarrow> string \<Rightarrow> bytes list \<Rightarrow> store \<times> int list" where
  "storeUpdateSeq Y db docName' [] = (db, [])"
| "storeUpdateSeq Y db docName' (update # updates) =
     (case storeUpdate Y db docName' update of (db', clock') \<Rightarrow>
      case storeUpdateSeq Y db' docName' updates of (db'', clocks) \<Rightarrow> (db'', clock' # clocks))"

text \<open>The data model's invariants of one document's records: every update record has a
  clock in the valid range \<open>0 \<le> clock < BITS32\<close>, and a state-vector record has neither a
  clock nor a part.\<close>

definition validClocks :: "store \<Rightarrow> string \<Rightarrow> bool" where
  "validClocks db docName' =
     list_all (\<lambda>d. matches (createDocumentUpdateKey docName' None) d
                   \<longrightarrow> matches (currentClockQuery docName') d) db"

definition plainStateVectors :: "store \<Rightarrow> string \<Rightarrow> bool" where
  "plainStateVectors db docName' =
     list_all (\<lambda>d. matches (createDocumentStateVectorKey docName') d
                   \<longrightarrow> clock d = None \<and> part d = None) db"

text \<open>A stand-in for the collaboration engine, used where a statement needs a concrete one:
  a document is the bytes of the updates applied to it, its state as an update is these
  bytes, and its state vector is their number as one byte.\<close>

definition concatEngine :: "bytes yjs" where
  "concatEngine =
     \<lparr>Y_Doc = [], Y_applyUpdate = (\<lambda>d u. d @ u), Y_encodeStateAsUpdate = (\<lambda>d. d),
      Y_encodeStateVector = (\<lambda>d. [of_nat (length d)])\<rparr>"

text \<open>An update record without a part.\<close>

definition updateRecord :: "string \<Rightarrow> int \<Rightarrow> bytes \<Rightarrow> mongo_doc" where
  "updateRecord docName' clock' v = newRecord (createDocumentUpdateKey docName' (Some clock')) v"

text \<open>A store reached through the public operations: one document imported with
  \<open>storeUpdates\<close> into the empty store, then 127 updates appended to it with \<open>storeUpdate\<close>.\<close>

definition importedStore :: store where
  "importedStore = snd (storeUpdates concatEngine [] [(''doc1'', [1])])"

definition staleStore :: store where
  "staleStore = fst (storeUpdateSeq concatEngine importedStore ''doc1'' (replicate 127 [2]))"

section \<open>Fields of keys and new records\<close>

lemma newRecord_fields [simp]:
  "version (newRecord q v) = q_version q"
  "action (newRecord q v) = q_action q"
  "docName (newRecord q v) = q_docName q"
  "clock (newRecord q v) = (case q_clock q of Some (ClockEq c) \<Rightarrow> Some c | _ \<Rightarrow> None)"
  "part (newRecord q v) = q_part q"
  "metaKey (newRecord q v) = q_metaKey q"
  "val (newRecord q v) = v"
  by (simp_all add: newRecord_def)

lemma createDocumentUpdateKey_fields [simp]:
  "q_version (createDocumentUpdateKey dn c) = Some ''v1''"
  "q_action (createDocumentUpdateKey dn c) = Some ''update''"
  "q_docName (createDocumentUpdateKey dn c) = Some dn"
  "q_clock (createDocumentUpdateKey dn c) = map_option ClockEq c"
  "q_part (createDocumentUpdateKey dn c) = None"
  "q_metaKey (createDocumentUpdateKey dn c) = None"
  by (simp_all add: createDocumentUpdateKey_def)

lemma createDocumentStateVectorKey_fields [simp]:
  "q_version (createDocumentStateVectorKey dn) = Some ''v1_sv''"
  "q_action (createDocumentStateVectorKey dn) = None"
  "q_docName (createDocumentStateVectorKey dn) = Some dn"
  "q_clock (createDocumentStateVectorKey dn) = None"
  "q_part (createDocumentStateVectorKey dn) = None"
  "q_metaKey (createDocumentStateVectorKey dn) = None"
  by (simp_all add: createDocumentStateVectorKey_def)

section \<open>Properties of the codec\<close>

lemma BITS7_AND_eq_mod: "BITS7 AND num = num mod 128"
proof -
  have "num AND mask 7 = num mod 2 ^ 7"
    by (simp only: take_bit_eq_mask [symmetric] take_bit_eq_mod)
  moreover have "mask 7 = (127::int)" by (simp add: mask_eq_exp_minus_1)
  ultimately show ?thesis by (simp add: and.commute BITS7_def)
qed

lemma BIT8_OR_eq_add: "BIT8 OR (num mod 128) = 128 + num mod 128"
proof -
  have "(2::int) ^ 7 AND take_bit 7 num = 0"
    by (rule bit_eqI) (simp only: bit_and_iff bit_exp_iff bit_take_bit_iff, auto)
  then have "(128::int) AND (num mod 128) = 0"
    by (simp add: take_bit_eq_mod)
  then show ?thesis by (simp add: disjunctive_add_eq_or BIT8_def)
qed

lemma uint_low_byte: "uint (word_of_int (num mod 128) :: byte) = num mod 128"
proof -
  have "0 \<le> num mod 128" "num mod 128 < 128" by simp_all
  then have "(num mod 128) mod 256 = num mod 128" by simp
  then show ?thesis by (simp only: uint_word_of_int) simp
qed

lemma uint_high_byte: "uint (word_of_int (128 + num mod 128) :: byte) = 128 + num mod 128"
proof -
  have "0 \<le> num mod 128" "num mod 128 < 128" by simp_all
  then have "(128 + num mod 128) mod 256 = 128 + num mod 128" by simp
  then show ?thesis by (simp only: uint_word_of_int) simp
qed

lemma readVarUintLoop_writeVarUint:
  "0 \<le> n \<Longrightarrow> 0 \<le> acc \<Longrightarrow> 0 \<le> mult \<Longrightarrow> acc + n * mult \<le> MAX_SAFE_INTEGER \<Longrightarrow>
   readVarUintLoop acc mult (writeVarUint n @ rest) = Inr (acc + n * mult, rest)"
proof (induction n arbitrary: acc mult rule: writeVarUint.induct)
  case (1 num)
  show ?case
  proof (cases "num > BITS7")
    case False
    then have small: "num mod 128 = num" using "1.prems" by (simp add: BITS7_def)
    define b :: byte where "b = word_of_int (num mod 128)"
    have ub: "uint b = num" unfolding b_def uint_low_byte by (rule small)
    have w: "writeVarUint num = [b]"
      using False unfolding b_def by (subst writeVarUint.simps) (simp add: BITS7_AND_eq_mod)
    have "uint b AND BITS7 = num"
      by (simp add: ub and.commute [of num] BITS7_AND_eq_mod small)
    moreover have "uint b < BIT8" using False by (simp add: ub BIT8_def BITS7_def)
    ultimately show ?thesis by (simp add: w)
  next
    case True
    let ?lo = "num mod 128"
    let ?acc' = "acc + ?lo * mult"
    define b :: byte where "b = word_of_int (128 + ?lo)"
    have ub: "uint b = 128 + ?lo" unfolding b_def by (rule uint_high_byte)
    have w: "writeVarUint num = b # writeVarUint (num div 128)"
      using True unfolding b_def
      by (subst writeVarUint.simps) (simp add: BITS7_AND_eq_mod BIT8_OR_eq_add)
    have lo: "0 \<le> ?lo" "?lo < 128" by simp_all
    have low7: "uint b AND BITS7 = ?lo"
      by (simp add: ub and.commute [of _ BITS7] BITS7_AND_eq_mod)
    have high: "\<not> uint b < BIT8" using lo by (simp add: ub BIT8_def)
    have "mult * ?lo + mult * (128 * (num div 128)) = mult * (?lo + 128 * (num div 128))"
      by (simp only: distrib_left)
    also have "\<dots> = mult * num" by simp
    finally have eq: "?acc' + (num div 128) * (mult * 128) = acc + num * mult"
      by (simp add: mult.commute mult.left_commute)
    have div0: "0 \<le> num div 128" using "1.prems" by simp
    have acc0: "0 \<le> ?acc'" using "1.prems" lo by simp
    have "0 \<le> (num div 128) * (mult * 128)" using div0 "1.prems" by simp
    then have le: "?acc' \<le> MAX_SAFE_INTEGER" using eq "1.prems" by linarith
    have IH: "readVarUintLoop ?acc' (mult * 128) (writeVarUint (num div 128) @ rest)
              = Inr (?acc' + (num div 128) * (mult * 128), rest)"
      using "1.IH" [OF True div0 acc0] "1.prems" eq by simp
    show ?thesis
      using le IH eq high by (simp add: w low7)
  qed
qed

lemma readVarUint_writeVarUint:
  "0 \<le> n \<Longrightarrow> n \<le> MAX_SAFE_INTEGER \<Longrightarrow> readVarUint (writeVarUint n @ rest) = Inr (n, rest)"
  using readVarUintLoop_writeVarUint [of n 0 1 rest] by (simp add: readVarUint_def)

lemma readVarUint8Array_writeVarUint8Array:
  "int (length sv) \<le> MAX_SAFE_INTEGER \<Longrightarrow>
   readVarUint8Array (writeVarUint8Array sv @ rest) = Inr (sv, rest)"
  by (simp add: readVarUint8Array_def writeVarUint8Array_def readVarUint_writeVarUint)

lemma decode_encodeStateVector:
  "0 \<le> c \<Longrightarrow> c \<le> MAX_SAFE_INTEGER \<Longrightarrow> int (length sv) \<le> MAX_SAFE_INTEGER \<Longrightarrow>
   decodeMongodbStateVector (Binary (encodeStateVector c sv)) = Inr (sv, c)"
  using readVarUint8Array_writeVarUint8Array [of sv "[]"]
  by (simp add: decodeMongodbStateVector_def encodeStateVector_def readVarUint_writeVarUint)

section \<open>The transaction chain\<close>

lemma transact_promise:
  "snd (transact tr dn f) =
     (\<lambda>w. case (case tr dn of None \<Rightarrow> promise_resolve | Some p \<Rightarrow> p) w of
             (Rejected e, w1) \<Rightarrow> (Rejected e, w1)
           | (Resolved _, w1) \<Rightarrow>
               (case f (w_db w1) of
                  (Inr res, db') \<Rightarrow> (Resolved (Some res), w1\<lparr>w_db := db'\<rparr>)
                | (Inl err, db') \<Rightarrow>
                    (Resolved None, \<lparr>w_db = db', w_console = w_console w1 @ [err]\<rparr>)))"
  by (simp add: transact_def Let_def)

lemma transact_table: "fst (transact tr dn f) = tr(dn \<mapsto> snd (transact tr dn f))"
  by (simp add: transact_def Let_def)

section \<open>Splitting an update and merging its parts\<close>

lemma concat_chunks:
  "0 < m \<Longrightarrow> concat (map (\<lambda>i. take m (drop (i * m) xs)) [0 ..< n]) = take (n * m) xs"
proof (induction n)
  case 0
  then show ?case by simp
next
  case (Suc n)
  have "take (n * m + m) xs = take (n * m) xs @ take m (drop (n * m) xs)"
    by (simp add: take_add)
  then show ?case using Suc by (simp add: add.commute)
qed

lemma chunkOf_eq: "chunkOf update i = take MAX_DOCUMENT_SIZE (drop (i * MAX_DOCUMENT_SIZE) update)"
  by (simp add: chunkOf_def Let_def min_def)

lemma totalChunks_covers: "length update \<le> totalChunks update * MAX_DOCUMENT_SIZE"
proof -
  define t where "t = length update + MAX_DOCUMENT_SIZE - 1"
  have pos: "0 < MAX_DOCUMENT_SIZE" by (simp add: MAX_DOCUMENT_SIZE_def)
  have "t div MAX_DOCUMENT_SIZE * MAX_DOCUMENT_SIZE + t mod MAX_DOCUMENT_SIZE = t" by simp
  moreover have "t mod MAX_DOCUMENT_SIZE < MAX_DOCUMENT_SIZE" using pos by simp
  ultimately have "length update \<le> t div MAX_DOCUMENT_SIZE * MAX_DOCUMENT_SIZE"
    unfolding t_def by linarith
  then show ?thesis by (simp add: totalChunks_def t_def)
qed

lemma totalChunks_ge2: "MAX_DOCUMENT_SIZE < length update \<Longrightarrow> 2 \<le> totalChunks update"
proof -
  assume big: "MAX_DOCUMENT_SIZE < length update"
  have pos: "0 < MAX_DOCUMENT_SIZE" by (simp add: MAX_DOCUMENT_SIZE_def)
  have "2 * MAX_DOCUMENT_SIZE \<le> length update + MAX_DOCUMENT_SIZE - 1" using big by simp
  then have "2 * MAX_DOCUMENT_SIZE div MAX_DOCUMENT_SIZE
             \<le> (length update + MAX_DOCUMENT_SIZE - 1) div MAX_DOCUMENT_SIZE"
    by (rule div_le_mono)
  then show ?thesis using pos by (simp add: totalChunks_def)
qed

lemma concat_chunkOf: "concat (map (chunkOf update) [0 ..< totalChunks update]) = update"
proof -
  have pos: "0 < MAX_DOCUMENT_SIZE" by (simp add: MAX_DOCUMENT_SIZE_def)
  have "concat (map (chunkOf update) [0 ..< totalChunks update])
        = take (totalChunks update * MAX_DOCUMENT_SIZE) update"
    using concat_chunks [OF pos, of update "totalChunks update"]
    by (simp add: chunkOf_eq [abs_def])
  then show ?thesis using totalChunks_covers [of update] by simp
qed

lemma length_chunkOf: "length (chunkOf update i) \<le> MAX_DOCUMENT_SIZE"
  by (simp add: chunkOf_eq)

text \<open>The inner loop on contiguous parts of one clock.\<close>

lemma mergeParts_contiguous:
  "(\<forall>j < length ps. part (ps ! j) = Some (k + 1 + int j) \<and> clock (ps ! j) = c) \<Longrightarrow> 0 \<le> k \<Longrightarrow>
   mergeParts c k ps = Inr (map val ps, length ps)"
proof (induction ps arbitrary: k)
  case Nil
  then show ?case by simp
next
  case (Cons p ps)
  from Cons.prems have p: "part p = Some (k + 1)" "clock p = c" by auto
  have "\<forall>j < length ps. part (ps ! j) = Some ((k + 1) + 1 + int j) \<and> clock (ps ! j) = c"
  proof (intro allI impI)
    fix j assume "j < length ps"
    then have "Suc j < length (p # ps)" by simp
    from Cons.prems(1) [rule_format, OF this] show
      "part (ps ! j) = Some ((k + 1) + 1 + int j) \<and> clock (ps ! j) = c"
      by (simp add: algebra_simps)
  qed
  from Cons.IH [OF this] Cons.prems(2) have "mergeParts c (k + 1) ps = Inr (map val ps, length ps)"
    by simp
  then show ?case using p Cons.prems(2) by simp
qed

lemma convertMongoUpdates_single:
  "\<not> truthy (part d) \<Longrightarrow> convertMongoUpdates [d] = Inr [val d]"
  by simp

lemma convertMongoUpdates_updateRecords:
  "convertMongoUpdates (updateRecords dn c update) = Inr [update]"
proof (cases "length update \<le> MAX_DOCUMENT_SIZE")
  case True
  then show ?thesis
    by (simp add: updateRecords_def truthy_def)
next
  case False
  let ?key = "\<lambda>i. (createDocumentUpdateKey dn (Some c))\<lparr>q_part := Some (int i + 1)\<rparr>"
  let ?r = "\<lambda>i. newRecord (?key i) (chunkOf update i)"
  let ?n = "totalChunks update"
  have n2: "2 \<le> ?n" using False totalChunks_ge2 by simp
  then have upt: "[0 ..< ?n] = 0 # [1 ..< ?n]" by (simp add: upt_conv_Cons)
  let ?tail = "map ?r [1 ..< ?n]"
  have recs: "updateRecords dn c update = ?r 0 # ?tail"
    using False by (simp add: updateRecords_def upt)
  have "\<forall>j < length ?tail. part (?tail ! j) = Some (1 + 1 + int j) \<and> clock (?tail ! j) = Some c"
    by simp
  from mergeParts_contiguous [OF this]
  have mp: "mergeParts (Some c) 1 ?tail = Inr (map val ?tail, length ?tail)" by simp
  have vals: "val (?r 0) # map val ?tail = map (chunkOf update) [0 ..< ?n]"
    by (simp add: upt comp_def)
  have "convertMongoUpdates (?r 0 # ?tail) = Inr [concat (val (?r 0) # map val ?tail)]"
    using mp by (simp add: truthy_def del: upt_Suc)
  then show ?thesis unfolding recs vals concat_chunkOf .
qed

section \<open>Broken part sequences\<close>

lemma partsOfClock_Cons:
  "partsOfClock c (d # ds) =
     (if truthy (part d) \<and> clock d = c then the (part d) # partsOfClock c ds else partsOfClock c ds)"
  by (auto simp: partsOfClock_def List.map_filter_simps truthy_def split: option.splits)

lemma partsOfClock_Nil [simp]: "partsOfClock c [] = []"
  by (simp add: partsOfClock_def List.map_filter_simps)

lemma partsOfClock_append: "partsOfClock c (xs @ ys) = partsOfClock c xs @ partsOfClock c ys"
  by (induction xs) (simp_all add: partsOfClock_Cons)

lemma partsOfClock_other: "\<forall>e \<in> set ds. clock e \<noteq> c \<Longrightarrow> partsOfClock c ds = []"
  by (induction ds) (simp_all add: partsOfClock_Cons)

lemma partsOfClock_run:
  "\<forall>e \<in> set ds. truthy (part e) \<and> clock e = c \<Longrightarrow> partsOfClock c ds = map (\<lambda>e. the (part e)) ds"
  by (induction ds) (simp_all add: partsOfClock_Cons)

lemma mergeParts_run:
  assumes "\<forall>p \<in> set run. truthy (part p) \<and> clock p = c"
    and "rest = [] \<or> \<not> (truthy (part (hd rest)) \<and> clock (hd rest) = c)"
  shows "mergeParts c k (run @ rest) =
           (if map (\<lambda>p. the (part p)) run = map (\<lambda>j. k + 1 + int j) [0 ..< length run]
            then Inr (map val run, length run) else Inl CorruptChunkSequence)"
  using assms
proof (induction run arbitrary: k)
  case Nil
  then show ?case by (cases rest) (auto simp: truthy_def split: option.splits)
next
  case (Cons p run)
  from Cons.prems obtain k' where p: "part p = Some k'" "k' \<noteq> 0" "clock p = c"
    by (auto simp: truthy_def split: option.splits)
  have shift: "map (\<lambda>j. k + 1 + int j) [0 ..< Suc (length run)]
               = (k + 1) # map (\<lambda>j. (k + 1) + 1 + int j) [0 ..< length run]"
    by (simp add: upt_conv_Cons map_Suc_upt [symmetric] del: upt_Suc)
  show ?case
  proof (cases "k = k' - 1")
    case False
    then show ?thesis using p by (auto simp add: shift simp del: upt_Suc)
  next
    case True
    then have k': "k' = k + 1" by simp
    have IH: "mergeParts c k' (run @ rest) =
           (if map (\<lambda>p. the (part p)) run = map (\<lambda>j. k' + 1 + int j) [0 ..< length run]
            then Inr (map val run, length run) else Inl CorruptChunkSequence)"
      using Cons.IH [of k'] Cons.prems by simp
    show ?thesis using p IH unfolding k' by (simp add: shift del: upt_Suc)
  qed
qed


lemma orderedRecords_Cons:
  "orderedRecords (d # ds) \<longleftrightarrow>
     (\<forall>e \<in> set ds. (clock d, part d) \<le> (clock e, part e)) \<and> orderedRecords ds"
  by (auto simp: orderedRecords_def)

lemma orderedRecords_append:
  "orderedRecords (xs @ ys) \<longleftrightarrow>
     orderedRecords xs \<and> orderedRecords ys \<and>
     (\<forall>x \<in> set xs. \<forall>y \<in> set ys. (clock x, part x) \<le> (clock y, part y))"
  by (auto simp: orderedRecords_def sorted_append)

lemma ordered_group:
  assumes ord: "orderedRecords (d # ds)" and one: "part d = Some 1"
  shows "\<forall>e \<in> set (takeWhile (\<lambda>e. clock e = clock d) ds). truthy (part e) \<and> clock e = clock d"
    and "\<forall>e \<in> set (dropWhile (\<lambda>e. clock e = clock d) ds). clock e \<noteq> clock d"
    and "orderedRecords (dropWhile (\<lambda>e. clock e = clock d) ds)"
proof -
  let ?P = "\<lambda>e. clock e = clock d"
  let ?run = "takeWhile ?P ds" and ?rest = "dropWhile ?P ds"
  have ds: "ds = ?run @ ?rest" by simp
  have ge: "\<forall>e \<in> set ds. (clock d, part d) \<le> (clock e, part e)" and ords: "orderedRecords ds"
    using ord by (simp_all add: orderedRecords_Cons)
  show "\<forall>e \<in> set ?run. truthy (part e) \<and> clock e = clock d"
  proof
    fix e assume e: "e \<in> set ?run"
    then have "e \<in> set ds" and c: "clock e = clock d"
      by (auto dest: set_takeWhileD)
    with ge have "(clock d, part d) \<le> (clock e, part e)" by blast
    with c one have "Some 1 \<le> part e" by (simp add: less_eq_prod_def)
    then have "truthy (part e)" by (cases "part e") (auto simp: truthy_def)
    with c show "truthy (part e) \<and> clock e = clock d" by simp
  qed
  have split: "orderedRecords (?run @ ?rest)" using ords by simp
  then show rest_ord: "orderedRecords ?rest" unfolding orderedRecords_append by simp
  show "\<forall>e \<in> set ?rest. clock e \<noteq> clock d"
  proof
    fix e assume e: "e \<in> set ?rest"
    then obtain e0 tl where rest: "?rest = e0 # tl" by (cases ?rest) auto
    then have ne: "?rest \<noteq> []" by (metis list.distinct(1))
    have "\<not> ?P (hd ?rest)" using ne by (rule hd_dropWhile)
    then have e0c: "clock e0 \<noteq> clock d" by (simp add: rest)
    have "e0 \<in> set ds" by (metis ds in_set_conv_decomp rest append.assoc)
    with ge have "(clock d, part d) \<le> (clock e0, part e0)" by blast
    with e0c have lt: "clock d < clock e0" by (auto simp: less_eq_prod_def)
    have "(clock e0, part e0) \<le> (clock e, part e)"
      using rest_ord e unfolding rest orderedRecords_Cons by auto
    then have "clock e0 \<le> clock e" by (auto simp: less_eq_prod_def)
    with lt show "clock e \<noteq> clock d" by auto
  qed
qed


lemma contiguousParts_Cons1:
  "contiguousParts (1 # ps) \<longleftrightarrow> ps = map (\<lambda>j. 1 + 1 + int j) [0 ..< length ps]"
proof -
  have "map (\<lambda>j. int j + 1) [0 ..< Suc (length ps)]
        = 1 # map (\<lambda>j. 1 + 1 + int j) [0 ..< length ps]"
    by (simp add: upt_conv_Cons map_Suc_upt [symmetric] o_def add.commute del: upt_Suc)
  then show ?thesis by (simp add: contiguousParts_def del: upt_Suc)
qed

lemma convertMongoUpdates_broken_iff:
  "orderedRecords docs \<Longrightarrow> partOneFirst docs \<Longrightarrow>
   (convertMongoUpdates docs = Inl CorruptChunkSequence) = brokenSequence docs"
proof (induction docs rule: convertMongoUpdates.induct)
  case 1
  show ?case by (simp add: brokenSequence_def)
next
  case (2 doc docs)
  have ord: "orderedRecords docs" using "2.prems"(1) by (simp add: orderedRecords_Cons)
  show ?case
  proof (cases "truthy (part doc)")
    case False
    have broken: "brokenSequence (doc # docs) = brokenSequence docs"
      using False by (simp add: brokenSequence_def partsOfClock_Cons)
    have "partOneFirst docs"
      using "2.prems"(2) False by (simp add: partOneFirst_def partsOfClock_Cons)
    from "2.IH"(1) [OF False ord this]
    have IH: "(convertMongoUpdates docs = Inl CorruptChunkSequence) = brokenSequence docs" .
    show ?thesis unfolding broken IH [symmetric]
      using False by (simp split: sum.splits)
  next
    case True
    define c where "c = clock doc"
    define run where "run = takeWhile (\<lambda>e. clock e = clock doc) docs"
    define rest where "rest = dropWhile (\<lambda>e. clock e = clock doc) docs"
    define ps where "ps = map (\<lambda>p. the (part p)) run"
    define Q where "Q e = (truthy (part e) \<and> \<not> contiguousParts (partsOfClock (clock e) (doc # docs)))"
      for e :: mongo_doc
    from True obtain k where k: "part doc = Some k" "k \<noteq> 0"
      by (auto simp: truthy_def split: option.splits)
    have "partsOfClock (clock doc) (doc # docs) = k # partsOfClock (clock doc) docs"
      using True k by (simp add: partsOfClock_Cons)
    with "2.prems"(2) True have "k = 1" by (simp add: partOneFirst_def)
    with k have one: "part doc = Some 1" by simp
    have run: "\<forall>e \<in> set run. truthy (part e) \<and> clock e = c"
      and rest: "\<forall>e \<in> set rest. clock e \<noteq> c"
      and ordrest: "orderedRecords rest"
      using ordered_group [OF "2.prems"(1) one] unfolding run_def rest_def c_def by blast+
    have docs: "docs = run @ rest" unfolding run_def rest_def by simp
    have drop: "drop (length run) docs = rest" unfolding docs by simp
    have stop: "rest = [] \<or> \<not> (truthy (part (hd rest)) \<and> clock (hd rest) = c)"
      using rest by (cases rest) auto
    have mp: "mergeParts c 1 docs =
                (if ps = map (\<lambda>j. 1 + 1 + int j) [0 ..< length run]
                 then Inr (map val run, length run) else Inl CorruptChunkSequence)"
      unfolding docs ps_def using mergeParts_run [OF run stop, of 1] by simp
    have pcd: "partsOfClock c docs = ps"
      unfolding docs ps_def partsOfClock_append
      using partsOfClock_run [OF run] partsOfClock_other [OF rest] by simp
    have pc: "partsOfClock c (doc # docs) = 1 # ps"
      using True one pcd by (simp add: partsOfClock_Cons c_def)
    have pc': "partsOfClock (clock e) (doc # docs) = partsOfClock (clock e) rest"
      if "e \<in> set rest" for e
    proof -
      from that rest have ne: "clock e \<noteq> c" by blast
      then have "\<forall>x \<in> set run. clock x \<noteq> clock e" using run by metis
      then have "partsOfClock (clock e) run = []" by (rule partsOfClock_other)
      then have "partsOfClock (clock e) docs = partsOfClock (clock e) rest"
        unfolding docs partsOfClock_append by simp
      then show ?thesis using ne by (simp add: partsOfClock_Cons c_def)
    qed
    have setdocs: "set docs = set run \<union> set rest" unfolding docs by simp
    have broken: "brokenSequence (doc # docs) \<longleftrightarrow> \<not> contiguousParts (1 # ps) \<or> brokenSequence rest"
    proof -
      have "brokenSequence (doc # docs) \<longleftrightarrow> Q doc \<or> (\<exists>e \<in> set docs. Q e)"
        by (simp add: brokenSequence_def list_ex_iff Q_def)
      then have a: "brokenSequence (doc # docs) \<longleftrightarrow>
                      Q doc \<or> (\<exists>e \<in> set run. Q e) \<or> (\<exists>e \<in> set rest. Q e)"
        unfolding setdocs by blast
      have qdoc: "Q doc \<longleftrightarrow> \<not> contiguousParts (1 # ps)"
        using True pc by (simp add: Q_def c_def)
      have qrun: "Q e \<longleftrightarrow> \<not> contiguousParts (1 # ps)" if "e \<in> set run" for e
        using that run pc by (simp add: Q_def)
      have qrest: "Q e \<longleftrightarrow> truthy (part e) \<and> \<not> contiguousParts (partsOfClock (clock e) rest)"
        if "e \<in> set rest" for e
        using that by (simp add: Q_def pc')
      have b: "(\<exists>e \<in> set rest. Q e) \<longleftrightarrow> brokenSequence rest"
        unfolding brokenSequence_def list_ex_iff using qrest by blast
      from a b qdoc qrun show ?thesis by blast
    qed
    have p1: "partOneFirst rest"
    proof -
      have "\<forall>e \<in> set (doc # docs). truthy (part e) \<longrightarrow>
              (case partsOfClock (clock e) (doc # docs) of [] \<Rightarrow> False | k # _ \<Rightarrow> k = 1)"
        using "2.prems"(2) unfolding partOneFirst_def list_all_iff .
      then have "\<forall>e \<in> set rest. truthy (part e) \<longrightarrow>
              (case partsOfClock (clock e) (doc # docs) of [] \<Rightarrow> False | k # _ \<Rightarrow> k = 1)"
        using setdocs by simp
      then show ?thesis unfolding partOneFirst_def list_all_iff by (simp add: pc')
    qed
    have nn: "\<not> \<not> truthy (part doc)" using True by simp
    show ?thesis
    proof (cases "ps = map (\<lambda>j. 1 + 1 + int j) [0 ..< length run]")
      case False
      then have "\<not> contiguousParts (1 # ps)"
        by (simp add: contiguousParts_Cons1 ps_def)
      moreover have "convertMongoUpdates (doc # docs) = Inl CorruptChunkSequence"
        using True one mp False by (simp add: c_def)
      ultimately show ?thesis using broken by simp
    next
      case good: True
      then have cont: "contiguousParts (1 # ps)"
        by (simp add: contiguousParts_Cons1 ps_def)
      have mp': "mergeParts (clock doc) 1 docs = Inr (map val run, length run)"
        using mp good by (simp add: c_def)
      from "2.IH"(2) [OF nn one mp' refl] ordrest p1
      have IH: "(convertMongoUpdates rest = Inl CorruptChunkSequence) = brokenSequence rest"
        by (simp add: drop)
      have "(convertMongoUpdates (doc # docs) = Inl CorruptChunkSequence)
            = (convertMongoUpdates rest = Inl CorruptChunkSequence)"
        using True one mp' by (simp add: drop split: sum.splits)
      then show ?thesis using IH broken cont by simp
    qed
  qed
qed

lemma mergeParts_error: "mergeParts c k ps = Inl e \<Longrightarrow> e = CorruptChunkSequence"
  by (induction ps arbitrary: k) (auto split: option.splits if_splits sum.splits prod.splits)

lemma convertMongoUpdates_error: "convertMongoUpdates docs = Inl e \<Longrightarrow> e = CorruptChunkSequence"
  by (induction docs rule: convertMongoUpdates.induct)
    (auto split: if_splits sum.splits prod.splits dest: mergeParts_error)

section \<open>The store: matching, upsert and the current clock\<close>

lemma matches_val_update [simp]: "matches q (d\<lparr>val := v\<rparr>) = matches q d"
  by (simp add: matches_def)

lemma matches_updateKey:
  "matches (createDocumentUpdateKey dn c) d \<longleftrightarrow>
     version d = Some ''v1'' \<and> action d = Some ''update'' \<and> docName d = Some dn \<and>
     (case c of None \<Rightarrow> True | Some x \<Rightarrow> clock d = Some x)"
  by (auto simp: matches_def field_matches_def clock_matches_def split: option.splits)

lemma matches_partKey:
  "matches ((createDocumentUpdateKey dn (Some c))\<lparr>q_part := Some p\<rparr>) d \<longleftrightarrow>
     version d = Some ''v1'' \<and> action d = Some ''update'' \<and> docName d = Some dn \<and>
     clock d = Some c \<and> part d = Some p"
  by (auto simp: matches_def field_matches_def clock_matches_def)

lemma matches_currentClockQuery:
  "matches (currentClockQuery dn) d \<longleftrightarrow>
     version d = Some ''v1'' \<and> action d = Some ''update'' \<and> docName d = Some dn \<and>
     (\<exists>c. clock d = Some c \<and> 0 \<le> c \<and> c < BITS32)"
  by (auto simp: matches_def field_matches_def clock_matches_def currentClockQuery_def
      split: option.splits)

lemma matches_svKey:
  "matches (createDocumentStateVectorKey dn) d \<longleftrightarrow>
     version d = Some ''v1_sv'' \<and> docName d = Some dn"
  by (auto simp: matches_def field_matches_def clock_matches_def)

lemma matches_range:
  "matches \<lparr>q_version = None, q_action = None, q_docName = Some dn,
            q_clock = Some (ClockRange from to), q_part = None, q_metaKey = None\<rparr> d \<longleftrightarrow>
     docName d = Some dn \<and> (\<exists>c. clock d = Some c \<and> from \<le> c \<and> c < to)"
  by (auto simp: matches_def field_matches_def clock_matches_def split: option.splits)

lemma db_put_fresh: "\<forall>d \<in> set db. \<not> matches q d \<Longrightarrow> db_put db q v = db @ [newRecord q v]"
  by (induction db) simp_all

lemma db_put_frame:
  "\<forall>d \<in> set db. matches q d \<longrightarrow> \<not> P d \<Longrightarrow> \<not> P (newRecord q v) \<Longrightarrow>
   (\<And>d. P (d\<lparr>val := v\<rparr>) = P d) \<Longrightarrow> filter P (db_put db q v) = filter P db"
  by (induction db) auto

lemma db_put_filter_same:
  "matches q (newRecord q v) \<Longrightarrow>
   filter (matches q) (db_put db q v) =
     (case filter (matches q) db of [] \<Rightarrow> [newRecord q v] | d # ds \<Rightarrow> d\<lparr>val := v\<rparr> # ds)"
  by (induction db) auto

text \<open>the current clock\<close>

lemma case_rev:
  "(case rev xs of [] \<Rightarrow> None | d # _ \<Rightarrow> Some d) = (if xs = [] then None else Some (last xs))"
  by (cases xs rule: rev_cases) simp_all

lemma sort_key_Nil_iff: "sort_key f xs = [] \<longleftrightarrow> xs = []"
  by (simp only: set_empty [symmetric] set_sort)

lemma db_findOne_reverse:
  "db_findOne db q True =
     (if filter (matches q) db = [] then None
      else Some (last (sort_key (\<lambda>d. (clock d, part d)) (filter (matches q) db))))"
  by (simp add: db_findOne_def db_find_def case_rev sort_key_Nil_iff)

lemma last_sort_key_max:
  assumes "xs \<noteq> []"
  shows "last (sort_key f xs) \<in> set xs \<and> (\<forall>x \<in> set xs. f x \<le> f (last (sort_key f xs)))"
proof -
  let ?ys = "sort_key f xs"
  have ne: "?ys \<noteq> []" using assms by (simp add: sort_key_Nil_iff)
  then have l: "last ?ys \<in> set ?ys" by (rule last_in_set)
  have srt: "sorted (map f ?ys)" by (rule sorted_sort_key)
  have "\<forall>x \<in> set ?ys. f x \<le> f (last ?ys)"
  proof
    fix x assume "x \<in> set ?ys"
    then obtain i where i: "i < length ?ys" "?ys ! i = x" by (metis in_set_conv_nth)
    then have "i \<le> length ?ys - 1" by simp
    with srt i have "map f ?ys ! i \<le> map f ?ys ! (length ?ys - 1)"
      by (intro sorted_nth_mono) simp_all
    then show "f x \<le> f (last ?ys)" using i ne by (simp add: last_conv_nth)
  qed
  then show ?thesis using l by simp
qed

text \<open>The current clock is \<open>-1\<close> when no record is in range, and else the greatest clock in
  range.\<close>

lemma getCurrentUpdateClock_none:
  "\<forall>d \<in> set db. \<not> matches (currentClockQuery dn) d \<Longrightarrow> getCurrentUpdateClock db dn = - 1"
  by (simp add: getCurrentUpdateClock_def db_findOne_reverse filter_empty_conv)

lemma getCurrentUpdateClock_some:
  assumes "\<exists>d \<in> set db. matches (currentClockQuery dn) d"
  shows "\<exists>d \<in> set db. matches (currentClockQuery dn) d \<and>
           clock d = Some (getCurrentUpdateClock db dn) \<and>
           (\<forall>e \<in> set db. matches (currentClockQuery dn) e \<longrightarrow> clock e \<le> clock d)"
proof -
  let ?xs = "filter (matches (currentClockQuery dn)) db"
  let ?l = "last (sort_key (\<lambda>d. (clock d, part d)) ?xs)"
  have ne: "?xs \<noteq> []" using assms by (simp add: filter_empty_conv)
  from last_sort_key_max [OF ne, of "\<lambda>d. (clock d, part d)"]
  have l: "?l \<in> set ?xs" and mx: "\<forall>x \<in> set ?xs. (clock x, part x) \<le> (clock ?l, part ?l)"
    by blast+
  from l have lm: "?l \<in> set db" "matches (currentClockQuery dn) ?l" by simp_all
  then obtain c where c: "clock ?l = Some c" by (auto simp: matches_currentClockQuery)
  have g: "getCurrentUpdateClock db dn = c"
    using ne c by (simp add: getCurrentUpdateClock_def db_findOne_reverse)
  have "\<forall>e \<in> set db. matches (currentClockQuery dn) e \<longrightarrow> clock e \<le> clock ?l"
  proof (intro ballI impI)
    fix e assume "e \<in> set db" "matches (currentClockQuery dn) e"
    then have "e \<in> set ?xs" by simp
    with mx have "(clock e, part e) \<le> (clock ?l, part ?l)" by blast
    then show "clock e \<le> clock ?l" by (auto simp: less_eq_prod_def)
  qed
  then show ?thesis using lm c g by blast
qed

lemma getCurrentUpdateClock_eqI:
  assumes "d \<in> set db" "matches (currentClockQuery dn) d" "clock d = Some c"
    and "\<forall>e \<in> set db. matches (currentClockQuery dn) e \<longrightarrow> clock e \<le> Some c"
  shows "getCurrentUpdateClock db dn = c"
proof -
  from assms(1,2) have "\<exists>d \<in> set db. matches (currentClockQuery dn) d" by blast
  from getCurrentUpdateClock_some [OF this] obtain m where
    m: "m \<in> set db" "matches (currentClockQuery dn) m"
       "clock m = Some (getCurrentUpdateClock db dn)"
       "\<forall>e \<in> set db. matches (currentClockQuery dn) e \<longrightarrow> clock e \<le> clock m"
    by blast
  from m(4) assms(1,2,3) have "Some c \<le> clock m" by auto
  moreover from assms(4) m(1,2) have "clock m \<le> Some c" by blast
  ultimately show ?thesis using m(3) by simp
qed

lemma getCurrentUpdateClock_range:
  "- 1 \<le> getCurrentUpdateClock db dn \<and> getCurrentUpdateClock db dn < BITS32"
proof (cases "\<exists>d \<in> set db. matches (currentClockQuery dn) d")
  case True
  from getCurrentUpdateClock_some [OF True] show ?thesis
    by (auto simp: matches_currentClockQuery)
next
  case False
  then show ?thesis using getCurrentUpdateClock_none [of db dn] by (simp add: BITS32_def)
qed

lemma getCurrentUpdateClock_minus1_iff:
  "getCurrentUpdateClock db dn = - 1 \<longleftrightarrow> (\<forall>d \<in> set db. \<not> matches (currentClockQuery dn) d)"
proof
  assume g: "getCurrentUpdateClock db dn = - 1"
  show "\<forall>d \<in> set db. \<not> matches (currentClockQuery dn) d"
  proof (rule ccontr)
    assume "\<not> ?thesis"
    then have "\<exists>d \<in> set db. matches (currentClockQuery dn) d" by blast
    from getCurrentUpdateClock_some [OF this] g show False
      by (auto simp: matches_currentClockQuery)
  qed
qed (rule getCurrentUpdateClock_none)

lemma getCurrentUpdateClock_upper:
  "e \<in> set db \<Longrightarrow> matches (currentClockQuery dn) e \<Longrightarrow> clock e \<le> Some (getCurrentUpdateClock db dn)"
proof -
  assume e: "e \<in> set db" "matches (currentClockQuery dn) e"
  then have "\<exists>d \<in> set db. matches (currentClockQuery dn) d" by blast
  from getCurrentUpdateClock_some [OF this] e show ?thesis by auto
qed

section \<open>What \<open>storeUpdate\<close> writes\<close>

lemma getCurrentUpdateClock_cong:
  "filter (matches (currentClockQuery dn)) db = filter (matches (currentClockQuery dn)) db' \<Longrightarrow>
   getCurrentUpdateClock db dn = getCurrentUpdateClock db' dn"
  by (simp add: getCurrentUpdateClock_def db_findOne_def db_find_def)

lemma writeStateVector_frame:
  assumes "\<And>d. P d \<Longrightarrow> version d \<noteq> Some ''v1_sv''" and "\<And>d v. P (d\<lparr>val := v\<rparr>) = P d"
  shows "filter P (writeStateVector db dn sv k) = filter P db"
  unfolding writeStateVector_def
proof (rule db_put_frame)
  show "\<forall>d \<in> set db. matches (createDocumentStateVectorKey dn) d \<longrightarrow> \<not> P d"
    using assms(1) by (auto simp: matches_svKey)
  show "\<not> P (newRecord (createDocumentStateVectorKey dn) (writeVarUint k @ writeVarUint8Array sv))"
    using assms(1) by fastforce
  show "\<And>d. P (d\<lparr>val := writeVarUint k @ writeVarUint8Array sv\<rparr>) = P d" by (rule assms(2))
qed

lemma writeStateVector_updates:
  "filter (matches (createDocumentUpdateKey dn' c)) (writeStateVector db dn sv k)
   = filter (matches (createDocumentUpdateKey dn' c)) db"
  by (rule writeStateVector_frame) (auto simp: matches_updateKey)

lemma writeStateVector_clockQuery:
  "filter (matches (currentClockQuery dn')) (writeStateVector db dn sv k)
   = filter (matches (currentClockQuery dn')) db"
  by (rule writeStateVector_frame) (auto simp: matches_currentClockQuery)

lemma db_put_record:
  "matches q (newRecord q v) \<Longrightarrow> \<exists>d \<in> set (db_put db q v). matches q d \<and> val d = v"
  by (induction db) auto

lemma writeStateVector_record:
  "\<exists>d \<in> set (writeStateVector db dn sv k).
     matches (createDocumentStateVectorKey dn) d \<and> val d = encodeStateVector k sv"
  unfolding writeStateVector_def encodeStateVector_def
  by (rule db_put_record) (simp add: matches_svKey)

lemma fold_upt_Suc: "fold f [0 ..< Suc n] x = f n (fold f [0 ..< n] x)"
  by simp

lemma putUpdateRecords_fresh:
  assumes fresh: "\<forall>d \<in> set db. \<not> matches (createDocumentUpdateKey dn (Some c)) d"
  shows "putUpdateRecords db dn c update = db @ updateRecords dn c update"
proof (cases "length update \<le> MAX_DOCUMENT_SIZE")
  case True
  then show ?thesis using fresh by (simp add: putUpdateRecords_def updateRecords_def db_put_fresh)
next
  case False
  let ?key = "\<lambda>i. (createDocumentUpdateKey dn (Some c))\<lparr>q_part := Some (int i + 1)\<rparr>"
  let ?r = "\<lambda>i. newRecord (?key i) (chunkOf update i)"
  have "fold (\<lambda>i db'. db_put db' (?key i) (chunkOf update i)) [0 ..< n] db = db @ map ?r [0 ..< n]" for n
  proof (induction n)
    case 0
    show ?case by simp
  next
    case (Suc n)
    have "\<forall>d \<in> set (db @ map ?r [0 ..< n]). \<not> matches (?key n) d"
      using fresh by (auto simp: matches_partKey matches_updateKey)
    then have "db_put (db @ map ?r [0 ..< n]) (?key n) (chunkOf update n)
               = (db @ map ?r [0 ..< n]) @ [?r n]"
      by (rule db_put_fresh)
    then show ?case using Suc by simp
  qed
  then show ?thesis using False by (simp add: putUpdateRecords_def updateRecords_def)
qed

lemma updateRecords_fields:
  "d \<in> set (updateRecords dn c update) \<Longrightarrow>
   version d = Some ''v1'' \<and> action d = Some ''update'' \<and> docName d = Some dn \<and> clock d = Some c"
  by (auto simp: updateRecords_def split: if_splits)

lemma updateRecords_nonempty: "updateRecords dn c update \<noteq> []"
proof (cases "length update \<le> MAX_DOCUMENT_SIZE")
  case True
  then show ?thesis by (simp add: updateRecords_def)
next
  case False
  then have "2 \<le> totalChunks update" using totalChunks_ge2 by simp
  then show ?thesis using False by (auto simp: updateRecords_def)
qed

lemma firstStateVector_updates:
  "filter (matches (createDocumentUpdateKey dn' c)) (firstStateVector Y db dn update)
   = filter (matches (createDocumentUpdateKey dn' c)) db"
  by (simp add: firstStateVector_def writeStateVector_updates)

lemma firstStateVector_clockQuery:
  "filter (matches (currentClockQuery dn')) (firstStateVector Y db dn update)
   = filter (matches (currentClockQuery dn')) db"
  by (simp add: firstStateVector_def writeStateVector_clockQuery)

lemma storeUpdate_eq:
  "storeUpdate Y db dn update =
     (putUpdateRecords (firstStateVector Y db dn update) dn (getCurrentUpdateClock db dn + 1) update,
      getCurrentUpdateClock db dn + 1)"
  by (simp add: storeUpdate_def firstStateVector_def Let_def)

lemma no_record_above_current:
  assumes "getCurrentUpdateClock db dn + 1 < BITS32"
  shows "\<forall>d \<in> set db. \<not> matches (createDocumentUpdateKey dn (Some (getCurrentUpdateClock db dn + 1))) d"
proof
  fix d assume d: "d \<in> set db"
  show "\<not> matches (createDocumentUpdateKey dn (Some (getCurrentUpdateClock db dn + 1))) d"
  proof
    assume m: "matches (createDocumentUpdateKey dn (Some (getCurrentUpdateClock db dn + 1))) d"
    have "- 1 \<le> getCurrentUpdateClock db dn" using getCurrentUpdateClock_range by simp
    with m assms have "matches (currentClockQuery dn) d"
      by (simp add: matches_updateKey matches_currentClockQuery)
    from getCurrentUpdateClock_upper [OF d this] m show False
      by (simp add: matches_updateKey)
  qed
qed

lemma storeUpdate_fresh:
  assumes "getCurrentUpdateClock db dn + 1 < BITS32"
  shows "fst (storeUpdate Y db dn update) =
           firstStateVector Y db dn update @ updateRecords dn (getCurrentUpdateClock db dn + 1) update"
proof -
  let ?c = "getCurrentUpdateClock db dn + 1"
  let ?q = "createDocumentUpdateKey dn (Some ?c)"
  have "filter (matches ?q) (firstStateVector Y db dn update) = filter (matches ?q) db"
    by (rule firstStateVector_updates)
  moreover have "filter (matches ?q) db = []"
    using no_record_above_current [OF assms] by (simp add: filter_empty_conv)
  ultimately have "\<forall>d \<in> set (firstStateVector Y db dn update). \<not> matches ?q d"
    by (simp add: filter_empty_conv)
  then show ?thesis by (simp add: storeUpdate_eq putUpdateRecords_fresh)
qed

lemma getCurrentUpdateClock_storeUpdate:
  assumes "getCurrentUpdateClock db dn + 1 < BITS32"
  shows "getCurrentUpdateClock (fst (storeUpdate Y db dn update)) dn = getCurrentUpdateClock db dn + 1"
proof -
  let ?c = "getCurrentUpdateClock db dn"
  let ?db1 = "firstStateVector Y db dn update"
  let ?recs = "updateRecords dn (?c + 1) update"
  have c0: "0 \<le> ?c + 1" using getCurrentUpdateClock_range [of db dn] by simp
  obtain r where r: "r \<in> set ?recs" using updateRecords_nonempty [of dn "?c + 1" update]
    by (cases ?recs) auto
  note rf = updateRecords_fields [OF r]
  show ?thesis unfolding storeUpdate_fresh [OF assms]
  proof (rule getCurrentUpdateClock_eqI [of r])
    show "r \<in> set (?db1 @ ?recs)" using r by simp
    show "matches (currentClockQuery dn) r" using rf c0 assms by (simp add: matches_currentClockQuery)
    show "clock r = Some (?c + 1)" using rf by simp
    show "\<forall>e \<in> set (?db1 @ ?recs). matches (currentClockQuery dn) e \<longrightarrow> clock e \<le> Some (?c + 1)"
    proof (intro ballI impI)
      fix e assume e: "e \<in> set (?db1 @ ?recs)" and m: "matches (currentClockQuery dn) e"
      show "clock e \<le> Some (?c + 1)"
      proof (cases "e \<in> set ?recs")
        case True
        then show ?thesis using updateRecords_fields [OF True] by simp
      next
        case False
        with e m have "e \<in> set (filter (matches (currentClockQuery dn)) ?db1)" by simp
        then have "e \<in> set db" unfolding firstStateVector_clockQuery by simp
        from getCurrentUpdateClock_upper [OF this m] show ?thesis
          by (cases "clock e") auto
      qed
    qed
  qed
qed

lemma storeUpdateSeq_clocks:
  "getCurrentUpdateClock db dn + int (length us) \<le> BITS32 \<Longrightarrow>
   snd (storeUpdateSeq Y db dn us) = map (\<lambda>i. getCurrentUpdateClock db dn + 1 + int i) [0 ..< length us]"
proof (induction us arbitrary: db)
  case Nil
  show ?case by simp
next
  case (Cons u us)
  let ?c = "getCurrentUpdateClock db dn"
  let ?db' = "putUpdateRecords (firstStateVector Y db dn u) dn (?c + 1) u"
  have su: "storeUpdate Y db dn u = (?db', ?c + 1)" by (rule storeUpdate_eq)
  have shift: "map (\<lambda>i. ?c + 1 + int i) [0 ..< Suc (length us)]
               = (?c + 1) # map (\<lambda>i. (?c + 1) + 1 + int i) [0 ..< length us]"
    by (simp add: upt_conv_Cons map_Suc_upt [symmetric] o_def del: upt_Suc)
  show ?case
  proof (cases "us = []")
    case True
    then show ?thesis by (simp add: su)
  next
    case False
    then have "0 < int (length us)" by simp
    moreover have "?c + (1 + int (length us)) \<le> BITS32" using Cons.prems by simp
    ultimately have "?c + 1 < BITS32" by linarith
    then have g: "getCurrentUpdateClock ?db' dn = ?c + 1"
      using getCurrentUpdateClock_storeUpdate [of db dn Y u] by (simp add: su)
    have "getCurrentUpdateClock ?db' dn + int (length us) \<le> BITS32"
      using Cons.prems g by simp
    from Cons.IH [OF this] have tl: "snd (storeUpdateSeq Y ?db' dn us)
        = map (\<lambda>i. (?c + 1) + 1 + int i) [0 ..< length us]"
      by (simp only: g)
    have "snd (storeUpdateSeq Y db dn (u # us)) = (?c + 1) # snd (storeUpdateSeq Y ?db' dn us)"
      by (simp add: su split: prod.splits)
    then show ?thesis by (simp only: tl shift length_Cons)
  qed
qed

lemma putUpdateRecords_frame:
  assumes no: "\<And>d. P d \<Longrightarrow> \<not> matches (createDocumentUpdateKey dn None) d"
    and val: "\<And>d v. P (d\<lparr>val := v\<rparr>) = P d"
  shows "filter P (putUpdateRecords db dn c update) = filter P db"
proof -
  have step: "filter P (db_put db' q v) = filter P db'"
    if "\<And>d. matches q d \<Longrightarrow> matches (createDocumentUpdateKey dn None) d"
      and "matches (createDocumentUpdateKey dn None) (newRecord q v)" for db' q v
    using that no by (intro db_put_frame) (auto simp: val)
  show ?thesis
  proof (cases "length update \<le> MAX_DOCUMENT_SIZE")
    case True
    then show ?thesis
      by (simp add: putUpdateRecords_def) (rule step, simp_all add: matches_updateKey)
  next
    case False
    let ?key = "\<lambda>i. (createDocumentUpdateKey dn (Some c))\<lparr>q_part := Some (int i + 1)\<rparr>"
    have "filter P (fold (\<lambda>i db'. db_put db' (?key i) (chunkOf update i)) [0 ..< n] db) = filter P db"
      for n
    proof (induction n)
      case 0
      show ?case by simp
    next
      case (Suc n)
      have "filter P (db_put (fold (\<lambda>i db'. db_put db' (?key i) (chunkOf update i)) [0 ..< n] db)
                        (?key n) (chunkOf update n))
            = filter P (fold (\<lambda>i db'. db_put db' (?key i) (chunkOf update i)) [0 ..< n] db)"
        by (rule step) (simp_all add: matches_updateKey matches_partKey)
      then show ?case using Suc by simp
    qed
    then show ?thesis using False by (simp add: putUpdateRecords_def)
  qed
qed

lemma putUpdateRecords_stateVectors:
  "filter (matches (createDocumentStateVectorKey dn')) (putUpdateRecords db dn c update)
   = filter (matches (createDocumentStateVectorKey dn')) db"
  by (rule putUpdateRecords_frame) (auto simp: matches_svKey matches_updateKey)

lemma updateRecords_nth:
  "MAX_DOCUMENT_SIZE < length update \<Longrightarrow> i < totalChunks update \<Longrightarrow>
   updateRecords dn c update ! i =
     newRecord ((createDocumentUpdateKey dn (Some c))\<lparr>q_part := Some (int i + 1)\<rparr>) (chunkOf update i)"
  by (simp add: updateRecords_def)

lemma length_updateRecords:
  "length (updateRecords dn c update) =
     (if length update \<le> MAX_DOCUMENT_SIZE then 1 else totalChunks update)"
  by (simp add: updateRecords_def)

lemma updateRecords_ordered: "orderedRecords (updateRecords dn c update)"
proof (cases "length update \<le> MAX_DOCUMENT_SIZE")
  case True
  then show ?thesis by (simp add: updateRecords_def orderedRecords_def)
next
  case False
  have "sorted (map (\<lambda>i. (Some c, Some (int i + 1))) [0 ..< n])" for n
    by (simp only: sorted_iff_nth_mono) (simp add: less_eq_prod_def)
  then show ?thesis using False
    by (simp add: updateRecords_def orderedRecords_def comp_def)
qed

lemma db_find_sorted: "orderedRecords xs \<Longrightarrow> \<forall>d \<in> set xs. matches q d \<Longrightarrow>
   filter (matches q) db = xs \<Longrightarrow> db_find db q = xs"
  by (simp add: db_find_def orderedRecords_def sort_key_id_if_sorted)

lemma storeUpdate_new_clock_records:
  assumes "getCurrentUpdateClock db dn + 1 < BITS32"
  shows "filter (matches (createDocumentUpdateKey dn (Some (getCurrentUpdateClock db dn + 1))))
           (fst (storeUpdate Y db dn update))
         = updateRecords dn (getCurrentUpdateClock db dn + 1) update"
proof -
  let ?c = "getCurrentUpdateClock db dn + 1"
  let ?q = "createDocumentUpdateKey dn (Some ?c)"
  have "filter (matches ?q) (firstStateVector Y db dn update) = filter (matches ?q) db"
    by (rule firstStateVector_updates)
  also have "\<dots> = []"
    using no_record_above_current [OF assms] by (simp add: filter_empty_conv)
  finally have old: "filter (matches ?q) (firstStateVector Y db dn update) = []" .
  have "\<forall>d \<in> set (updateRecords dn ?c update). matches ?q d"
    using updateRecords_fields by (auto simp: matches_updateKey)
  then have new: "filter (matches ?q) (updateRecords dn ?c update) = updateRecords dn ?c update"
    by (simp add: filter_id_conv)
  show ?thesis unfolding storeUpdate_fresh [OF assms] by (simp add: old new)
qed

lemma storeUpdate_all_records:
  assumes "getCurrentUpdateClock db dn + 1 < BITS32"
  shows "filter (matches (createDocumentUpdateKey dn None)) (fst (storeUpdate Y db dn update))
         = filter (matches (createDocumentUpdateKey dn None)) db
           @ updateRecords dn (getCurrentUpdateClock db dn + 1) update"
proof -
  let ?c = "getCurrentUpdateClock db dn + 1"
  let ?q = "createDocumentUpdateKey dn None"
  have "\<forall>d \<in> set (updateRecords dn ?c update). matches ?q d"
    using updateRecords_fields by (auto simp: matches_updateKey)
  then have new: "filter (matches ?q) (updateRecords dn ?c update) = updateRecords dn ?c update"
    by (simp add: filter_id_conv)
  show ?thesis unfolding storeUpdate_fresh [OF assms]
    by (simp add: new firstStateVector_updates)
qed

section \<open>Reading the state-vector record back\<close>

lemma validClocks_iff:
  "validClocks db dn \<longleftrightarrow>
     (\<forall>d \<in> set db. matches (createDocumentUpdateKey dn None) d \<longrightarrow> matches (currentClockQuery dn) d)"
  by (simp add: validClocks_def list_all_iff)

lemma plainStateVectors_iff:
  "plainStateVectors db dn \<longleftrightarrow>
     (\<forall>d \<in> set (filter (matches (createDocumentStateVectorKey dn)) db). clock d = None \<and> part d = None)"
  by (auto simp: plainStateVectors_def list_all_iff)

lemma plainStateVectors_cong:
  "filter (matches (createDocumentStateVectorKey dn)) db'
     = filter (matches (createDocumentStateVectorKey dn)) db \<Longrightarrow>
   plainStateVectors db' dn = plainStateVectors db dn"
  by (simp add: plainStateVectors_iff)

lemma sv_newRecord_matches:
  "matches (createDocumentStateVectorKey dn) (newRecord (createDocumentStateVectorKey dn) v)"
  by (simp add: matches_svKey)

lemma writeStateVector_sv_filter:
  "filter (matches (createDocumentStateVectorKey dn)) (writeStateVector db dn sv k) =
     (case filter (matches (createDocumentStateVectorKey dn)) db of
        [] \<Rightarrow> [newRecord (createDocumentStateVectorKey dn) (encodeStateVector k sv)]
      | d # ds \<Rightarrow> d\<lparr>val := encodeStateVector k sv\<rparr> # ds)"
  unfolding writeStateVector_def encodeStateVector_def [symmetric]
  by (rule db_put_filter_same) (rule sv_newRecord_matches)

lemma plainStateVectors_writeStateVector:
  "plainStateVectors db dn \<Longrightarrow> plainStateVectors (writeStateVector db dn sv k) dn"
  unfolding plainStateVectors_iff writeStateVector_sv_filter
  by (cases "filter (matches (createDocumentStateVectorKey dn)) db") (simp_all del: set_filter)

lemma db_findOne_plain:
  assumes "plainStateVectors db dn"
  shows "db_findOne db (createDocumentStateVectorKey dn) False =
           (case filter (matches (createDocumentStateVectorKey dn)) db of
              [] \<Rightarrow> None | d # _ \<Rightarrow> Some d)"
proof -
  let ?xs = "filter (matches (createDocumentStateVectorKey dn)) db"
  have "\<forall>d \<in> set ?xs. (clock d, part d) = (None, None)"
    using assms by (simp add: plainStateVectors_iff del: set_filter)
  then have "map (\<lambda>d. (clock d, part d)) ?xs = replicate (length ?xs) (None, None)"
    by (simp add: map_replicate_const [symmetric] cong: map_cong)
  then have "sorted (map (\<lambda>d. (clock d, part d)) ?xs)"
    by (simp add: sorted_replicate)
  then have "sort_key (\<lambda>d. (clock d, part d)) ?xs = ?xs"
    by (rule sort_key_id_if_sorted)
  then show ?thesis by (simp add: db_findOne_def db_find_def)
qed

lemma readStateVector_writeStateVector:
  assumes "plainStateVectors db dn" "0 \<le> k" "k \<le> MAX_SAFE_INTEGER"
    "int (length sv) \<le> MAX_SAFE_INTEGER"
  shows "readStateVector (writeStateVector db dn sv k) dn = Inr (Some sv, k)"
proof -
  have p: "plainStateVectors (writeStateVector db dn sv k) dn"
    using assms(1) by (rule plainStateVectors_writeStateVector)
  show ?thesis
    unfolding readStateVector_def db_findOne_plain [OF p] writeStateVector_sv_filter
    using decode_encodeStateVector [OF assms(2,3,4)]
    by (simp split: list.splits)
qed

lemma readStateVector_cong:
  assumes "filter (matches (createDocumentStateVectorKey dn)) db'
             = filter (matches (createDocumentStateVectorKey dn)) db"
    and "plainStateVectors db dn"
  shows "readStateVector db' dn = readStateVector db dn"
proof -
  have "plainStateVectors db' dn" using assms plainStateVectors_cong by blast
  then show ?thesis
    unfolding readStateVector_def db_findOne_plain [OF assms(2)] db_findOne_plain [OF \<open>plainStateVectors db' dn\<close>]
    by (simp add: assms(1))
qed

lemma clearUpdatesRange_eq:
  "clearUpdatesRange db dn from to =
     filter (\<lambda>d. \<not> (docName d = Some dn \<and> (\<exists>c. clock d = Some c \<and> from \<le> c \<and> c < to))) db"
  by (simp add: clearUpdatesRange_def db_delete_def matches_range)

lemma clearUpdatesRange_sv:
  assumes "plainStateVectors db dn'"
  shows "filter (matches (createDocumentStateVectorKey dn')) (clearUpdatesRange db dn from to)
         = filter (matches (createDocumentStateVectorKey dn')) db"
proof -
  have "\<forall>d \<in> set db. matches (createDocumentStateVectorKey dn') d \<longrightarrow> clock d = None"
    using assms by (simp add: plainStateVectors_iff)
  then show ?thesis
    unfolding clearUpdatesRange_eq by (auto intro!: filter_cong)
qed

lemma clearUpdatesRange_other_docs:
  "filter (\<lambda>d. docName d \<noteq> Some dn) (clearUpdatesRange db dn from to)
   = filter (\<lambda>d. docName d \<noteq> Some dn) db"
  unfolding clearUpdatesRange_eq by (auto intro!: filter_cong)

section \<open>What \<open>flushDocument\<close> leaves\<close>

lemma flushDocument_eq:
  "flushDocument Y db dn u sv =
     (clearUpdatesRange
        (writeStateVector (fst (storeUpdate Y db dn u)) dn sv (getCurrentUpdateClock db dn + 1))
        dn 0 (getCurrentUpdateClock db dn + 1),
      getCurrentUpdateClock db dn + 1)"
  by (simp add: flushDocument_def storeUpdate_eq Let_def)

lemma firstStateVector_frame:
  assumes "\<And>d. P d \<Longrightarrow> version d \<noteq> Some ''v1_sv''" and "\<And>d v. P (d\<lparr>val := v\<rparr>) = P d"
  shows "filter P (firstStateVector Y db dn u) = filter P db"
  using assms by (simp add: firstStateVector_def writeStateVector_frame)

lemma no_record_at_next_clock:
  assumes "validClocks db dn"
  shows "\<forall>d \<in> set db.
           \<not> matches (createDocumentUpdateKey dn (Some (getCurrentUpdateClock db dn + 1))) d"
proof
  fix d assume d: "d \<in> set db"
  show "\<not> matches (createDocumentUpdateKey dn (Some (getCurrentUpdateClock db dn + 1))) d"
  proof
    assume m: "matches (createDocumentUpdateKey dn (Some (getCurrentUpdateClock db dn + 1))) d"
    then have "matches (createDocumentUpdateKey dn None) d" by (simp add: matches_updateKey)
    with assms d have "matches (currentClockQuery dn) d" by (auto simp: validClocks_iff)
    from getCurrentUpdateClock_upper [OF d this] m show False
      by (simp add: matches_updateKey)
  qed
qed

lemma storeUpdate_fresh_valid:
  assumes "validClocks db dn"
  shows "fst (storeUpdate Y db dn update) =
           firstStateVector Y db dn update @ updateRecords dn (getCurrentUpdateClock db dn + 1) update"
proof -
  let ?c = "getCurrentUpdateClock db dn + 1"
  let ?q = "createDocumentUpdateKey dn (Some ?c)"
  have "filter (matches ?q) (firstStateVector Y db dn update) = filter (matches ?q) db"
    by (rule firstStateVector_updates)
  moreover have "filter (matches ?q) db = []"
    using no_record_at_next_clock [OF assms] by (simp add: filter_empty_conv)
  ultimately have "\<forall>d \<in> set (firstStateVector Y db dn update). \<not> matches ?q d"
    by (simp add: filter_empty_conv)
  then show ?thesis by (simp add: storeUpdate_eq putUpdateRecords_fresh)
qed

lemma flushDocument_updates:
  assumes valid: "validClocks db dn"
  shows "filter (matches (createDocumentUpdateKey dn None)) (fst (flushDocument Y db dn u sv))
         = updateRecords dn (getCurrentUpdateClock db dn + 1) u"
proof -
  define c where "c = getCurrentUpdateClock db dn + 1"
  define recs where "recs = updateRecords dn c u"
  define dbS where "dbS = firstStateVector Y db dn u"
  define P where "P d \<longleftrightarrow> matches (createDocumentUpdateKey dn None) d \<and>
     \<not> (docName d = Some dn \<and> (\<exists>x. clock d = Some x \<and> 0 \<le> x \<and> x < c))" for d
  have Pv: "P (d\<lparr>val := v\<rparr>) = P d" for d v by (simp add: P_def)
  have Psv: "version d \<noteq> Some ''v1_sv''" if "P d" for d
    using that by (auto simp: P_def matches_updateKey)
  have db1: "fst (storeUpdate Y db dn u) = dbS @ recs"
    unfolding dbS_def recs_def c_def using valid by (rule storeUpdate_fresh_valid)
  have "filter (matches (createDocumentUpdateKey dn None)) (fst (flushDocument Y db dn u sv))
        = filter P (writeStateVector (dbS @ recs) dn sv c)"
    unfolding flushDocument_eq c_def [symmetric] db1
    by (simp add: clearUpdatesRange_eq, intro filter_cong refl, auto simp: P_def)
  also have "\<dots> = filter P (dbS @ recs)"
    using Psv Pv by (rule writeStateVector_frame)
  also have "\<dots> = filter P dbS @ filter P recs" by simp
  also have "filter P recs = recs"
    unfolding recs_def using updateRecords_fields [of _ dn c u]
    by (auto simp: filter_id_conv P_def matches_updateKey)
  also have "filter P dbS = filter P db"
    unfolding dbS_def using Psv Pv by (rule firstStateVector_frame)
  also have "filter P db = []"
  proof -
    have "\<not> P d" if d: "d \<in> set db" for d
    proof
      assume p: "P d"
      then have u: "matches (createDocumentUpdateKey dn None) d" by (simp add: P_def)
      with valid d have m: "matches (currentClockQuery dn) d" by (auto simp: validClocks_iff)
      then obtain x where x: "clock d = Some x" "0 \<le> x" "docName d = Some dn"
        by (auto simp: matches_currentClockQuery)
      from getCurrentUpdateClock_upper [OF d m] x have "x < c" by (simp add: c_def)
      with x p show False by (simp add: P_def)
    qed
    then show ?thesis by (simp add: filter_empty_conv)
  qed
  finally show ?thesis by (simp add: recs_def c_def)
qed

lemma plainStateVectors_storeUpdate:
  assumes "plainStateVectors db dn"
  shows "plainStateVectors (fst (storeUpdate Y db dn u)) dn"
proof -
  have "plainStateVectors (firstStateVector Y db dn u) dn"
    using assms by (simp add: firstStateVector_def plainStateVectors_writeStateVector)
  then show ?thesis
    by (simp add: storeUpdate_eq plainStateVectors_cong [OF putUpdateRecords_stateVectors])
qed

lemma getCurrentUpdateClock_bound:
  "0 \<le> getCurrentUpdateClock db dn + 1 \<and> getCurrentUpdateClock db dn + 1 \<le> MAX_SAFE_INTEGER"
  using getCurrentUpdateClock_range [of db dn] by (simp add: BITS32_def MAX_SAFE_INTEGER_def)

lemma flushDocument_stateVector:
  assumes plain: "plainStateVectors db dn" and len: "int (length sv) \<le> MAX_SAFE_INTEGER"
  shows "readStateVector (fst (flushDocument Y db dn u sv)) dn
         = Inr (Some sv, getCurrentUpdateClock db dn + 1)"
    and "plainStateVectors (fst (flushDocument Y db dn u sv)) dn"
proof -
  let ?c = "getCurrentUpdateClock db dn + 1"
  let ?db1 = "fst (storeUpdate Y db dn u)"
  let ?db2 = "writeStateVector ?db1 dn sv ?c"
  have p1: "plainStateVectors ?db1 dn" using plain by (rule plainStateVectors_storeUpdate)
  then have p2: "plainStateVectors ?db2 dn" by (rule plainStateVectors_writeStateVector)
  have r2: "readStateVector ?db2 dn = Inr (Some sv, ?c)"
    using p1 getCurrentUpdateClock_bound [of db dn] len
    by (intro readStateVector_writeStateVector) simp_all
  have f: "filter (matches (createDocumentStateVectorKey dn)) (clearUpdatesRange ?db2 dn 0 ?c)
           = filter (matches (createDocumentStateVectorKey dn)) ?db2"
    using p2 by (rule clearUpdatesRange_sv)
  show "readStateVector (fst (flushDocument Y db dn u sv)) dn = Inr (Some sv, ?c)"
    unfolding flushDocument_eq fst_conv readStateVector_cong [OF f p2] by (rule r2)
  show "plainStateVectors (fst (flushDocument Y db dn u sv)) dn"
    unfolding flushDocument_eq fst_conv plainStateVectors_cong [OF f] by (rule p2)
qed

lemma flushDocument_other_docs:
  "filter (\<lambda>d. docName d \<noteq> Some dn) (fst (flushDocument Y db dn u sv))
   = filter (\<lambda>d. docName d \<noteq> Some dn) db"
proof -
  let ?P = "\<lambda>d :: mongo_doc. docName d \<noteq> Some dn"
  have w: "filter ?P (writeStateVector db' dn sv' k) = filter ?P db'" for db' sv' k
    unfolding writeStateVector_def
    by (rule db_put_frame) (auto simp: matches_svKey)
  have "filter ?P (putUpdateRecords db' dn k u) = filter ?P db'" for db' k
    by (rule putUpdateRecords_frame) (auto simp: matches_updateKey)
  then have "filter ?P (fst (storeUpdate Y db dn u)) = filter ?P db"
    by (simp add: storeUpdate_eq firstStateVector_def w)
  then show ?thesis
    by (simp add: flushDocument_eq clearUpdatesRange_other_docs w)
qed

lemma getCurrentUpdateClock_updateRecords:
  assumes "filter (matches (createDocumentUpdateKey dn None)) db = updateRecords dn c u"
    and "0 \<le> c" "c < BITS32"
  shows "getCurrentUpdateClock db dn = c"
proof -
  obtain r where r: "r \<in> set (updateRecords dn c u)" using updateRecords_nonempty [of dn c u]
    by (cases "updateRecords dn c u") auto
  have inU: "e \<in> set (updateRecords dn c u)"
    if "e \<in> set db" "matches (currentClockQuery dn) e" for e
  proof -
    from that(2) have "matches (createDocumentUpdateKey dn None) e"
      by (simp add: matches_currentClockQuery matches_updateKey)
    with that(1) have "e \<in> set (filter (matches (createDocumentUpdateKey dn None)) db)" by simp
    then show ?thesis by (simp only: assms(1))
  qed
  have "r \<in> set (filter (matches (createDocumentUpdateKey dn None)) db)"
    using r by (simp only: assms(1))
  then have rdb: "r \<in> set db" by simp
  show ?thesis
  proof (rule getCurrentUpdateClock_eqI [OF rdb])
    show "matches (currentClockQuery dn) r"
      using updateRecords_fields [OF r] assms(2,3) by (simp add: matches_currentClockQuery)
    show "clock r = Some c" using updateRecords_fields [OF r] by simp
    show "\<forall>e \<in> set db. matches (currentClockQuery dn) e \<longrightarrow> clock e \<le> Some c"
      using inU updateRecords_fields by fastforce
  qed
qed

lemma getCurrentUpdateClock_out_of_range:
  assumes "filter (matches (createDocumentUpdateKey dn None)) db = updateRecords dn c u"
    and "BITS32 \<le> c"
  shows "getCurrentUpdateClock db dn = - 1"
proof (rule getCurrentUpdateClock_none, intro ballI notI)
  fix e assume e: "e \<in> set db" and m: "matches (currentClockQuery dn) e"
  from m have "matches (createDocumentUpdateKey dn None) e"
    by (simp add: matches_currentClockQuery matches_updateKey)
  with e have "e \<in> set (filter (matches (createDocumentUpdateKey dn None)) db)" by simp
  then have "e \<in> set (updateRecords dn c u)" by (simp only: assms(1))
  then have "clock e = Some c" by (simp add: updateRecords_fields)
  with m assms(2) show False by (simp add: matches_currentClockQuery)
qed

lemma getMongoUpdates_updateRecords:
  assumes "filter (matches (createDocumentUpdateKey dn None)) db = updateRecords dn c u"
  shows "getMongoUpdates db dn = Inr [u]"
proof -
  have "\<forall>d \<in> set (updateRecords dn c u). matches (createDocumentUpdateKey dn None) d"
    using updateRecords_fields by (auto simp: matches_updateKey)
  with updateRecords_ordered have "db_find db (createDocumentUpdateKey dn None) = updateRecords dn c u"
    using assms by (rule db_find_sorted)
  then show ?thesis by (simp add: getMongoUpdates_def convertMongoUpdates_updateRecords)
qed

lemma validClocks_updateRecords:
  assumes "filter (matches (createDocumentUpdateKey dn None)) db = updateRecords dn c u"
    and "0 \<le> c" "c < BITS32"
  shows "validClocks db dn"
  unfolding validClocks_iff
proof (intro ballI impI)
  fix d assume "d \<in> set db" "matches (createDocumentUpdateKey dn None) d"
  then have "d \<in> set (filter (matches (createDocumentUpdateKey dn None)) db)" by simp
  then have "d \<in> set (updateRecords dn c u)" by (simp only: assms(1))
  from updateRecords_fields [OF this] assms(2,3)
  show "matches (currentClockQuery dn) d" by (simp add: matches_currentClockQuery)
qed

lemma flushDocument_tx_ok:
  assumes "getMongoUpdates db dn = Inr updates"
  shows "flushDocument_tx Y dn db =
           (Inr (), fst (flushDocument Y db dn (fst (mergeUpdates Y updates))
                           (snd (mergeUpdates Y updates))))"
  using assms by (simp add: flushDocument_tx_def split: prod.splits)

lemma mergeUpdates_single:
  "mergeUpdates Y [u] =
     (Y_encodeStateAsUpdate Y (Y_applyUpdate Y (Y_Doc Y) u),
      Y_encodeStateVector Y (Y_applyUpdate Y (Y_Doc Y) u))"
  by (simp add: mergeUpdates_def Let_def)

text \<open>One flush of a document with a readable log in the valid range.\<close>

lemma flush_once:
  assumes valid: "validClocks db dn" and plain: "plainStateVectors db dn"
    and range: "getCurrentUpdateClock db dn + 1 < BITS32"
    and log: "getMongoUpdates db dn = Inr updates"
    and len: "int (length (snd (mergeUpdates Y updates))) \<le> MAX_SAFE_INTEGER"
  defines "db' \<equiv> snd (flushDocument_tx Y dn db)"
  shows "flushDocument_tx Y dn db = (Inr (), db')"
    and "readStateVector db' dn
           = Inr (Some (snd (mergeUpdates Y updates)), getCurrentUpdateClock db dn + 1)"
    and "filter (matches (createDocumentUpdateKey dn None)) db'
           = updateRecords dn (getCurrentUpdateClock db dn + 1) (fst (mergeUpdates Y updates))"
    and "getMongoUpdates db' dn = Inr [fst (mergeUpdates Y updates)]"
    and "getCurrentUpdateClock db' dn = getCurrentUpdateClock db dn + 1"
    and "validClocks db' dn" and "plainStateVectors db' dn"
proof -
  let ?u = "fst (mergeUpdates Y updates)" and ?sv = "snd (mergeUpdates Y updates)"
  let ?c = "getCurrentUpdateClock db dn + 1"
  have tx: "flushDocument_tx Y dn db = (Inr (), fst (flushDocument Y db dn ?u ?sv))"
    using log by (rule flushDocument_tx_ok)
  then have db': "db' = fst (flushDocument Y db dn ?u ?sv)" by (simp add: db'_def)
  show "flushDocument_tx Y dn db = (Inr (), db')" using tx db' by simp
  show "readStateVector db' dn = Inr (Some ?sv, ?c)"
    unfolding db' using plain len by (rule flushDocument_stateVector)
  show p': "plainStateVectors db' dn"
    unfolding db' using plain len by (rule flushDocument_stateVector)
  show recs: "filter (matches (createDocumentUpdateKey dn None)) db' = updateRecords dn ?c ?u"
    unfolding db' using valid by (rule flushDocument_updates)
  have c0: "0 \<le> ?c" using getCurrentUpdateClock_range [of db dn] by simp
  show "getMongoUpdates db' dn = Inr [?u]" using recs by (rule getMongoUpdates_updateRecords)
  show "getCurrentUpdateClock db' dn = ?c"
    using recs c0 range by (rule getCurrentUpdateClock_updateRecords)
  show "validClocks db' dn" using recs c0 range by (rule validClocks_updateRecords)
qed

section \<open>\<open>getStateVector\<close>\<close>

lemma getStateVector_tx_hit:
  assumes "readStateVector db dn = Inr (Some sv, k)" "k = getCurrentUpdateClock db dn"
  shows "getStateVector_tx Y dn db = (Inr sv, db)"
  using assms by (simp add: getStateVector_tx_def)

lemma getStateVector_tx_miss:
  assumes "readStateVector db dn = Inr (svo, k)"
    and "\<not> (svo \<noteq> None \<and> k = getCurrentUpdateClock db dn)"
    and "getMongoUpdates db dn = Inr updates"
  shows "getStateVector_tx Y dn db =
           (Inr (snd (mergeUpdates Y updates)),
            fst (flushDocument Y db dn (fst (mergeUpdates Y updates)) (snd (mergeUpdates Y updates))))"
  using assms by (auto simp add: getStateVector_tx_def Let_def split: prod.splits)

text \<open>The two branches of \<open>getStateVector\<close>: the cached state vector is returned, and
  the store left alone, exactly when a record is cached whose stamp is the current clock;
  otherwise the document is merged and flushed, the fresh state vector is returned, and
  the cache is fresh afterwards.\<close>

lemma getStateVector_cached_iff_fresh:
  assumes valid: "validClocks db dn" and plain: "plainStateVectors db dn"
    and range: "getCurrentUpdateClock db dn + 1 < BITS32"
    and cache: "readStateVector db dn = Inr (cached, stamp)"
    and log: "getMongoUpdates db dn = Inr updates"
    and len: "int (length (snd (mergeUpdates Y updates))) \<le> MAX_SAFE_INTEGER"
  shows "(cached \<noteq> None \<and> stamp = getCurrentUpdateClock db dn \<longrightarrow>
            getStateVector_tx Y dn db = (Inr (the cached), db)) \<and>
         (\<not> (cached \<noteq> None \<and> stamp = getCurrentUpdateClock db dn) \<longrightarrow>
            (let fresh = snd (mergeUpdates Y updates);
                 db' = fst (flushDocument Y db dn (fst (mergeUpdates Y updates)) fresh)
             in getStateVector_tx Y dn db = (Inr fresh, db') \<and>
                db' \<noteq> db \<and>
                readStateVector db' dn = Inr (Some fresh, getCurrentUpdateClock db dn + 1) \<and>
                getCurrentUpdateClock db' dn = getCurrentUpdateClock db dn + 1 \<and>
                getStateVector_tx Y dn db' = (Inr fresh, db')))"
proof (intro conjI impI)
  assume "cached \<noteq> None \<and> stamp = getCurrentUpdateClock db dn"
  then obtain sv where "cached = Some sv" "stamp = getCurrentUpdateClock db dn" by auto
  with cache show "getStateVector_tx Y dn db = (Inr (the cached), db)"
    by (simp add: getStateVector_tx_hit)
next
  assume miss: "\<not> (cached \<noteq> None \<and> stamp = getCurrentUpdateClock db dn)"
  define fresh where "fresh = snd (mergeUpdates Y updates)"
  define db' where "db' = fst (flushDocument Y db dn (fst (mergeUpdates Y updates)) fresh)"
  let ?c = "getCurrentUpdateClock db dn + 1"
  have tx: "flushDocument_tx Y dn db = (Inr (), db')"
    using flushDocument_tx_ok [OF log, of Y] by (simp add: db'_def fresh_def)
  then have db'_tx: "snd (flushDocument_tx Y dn db) = db'" by simp
  note f = flush_once [OF valid plain range log len, unfolded db'_tx, folded fresh_def]
  have r: "getStateVector_tx Y dn db = (Inr fresh, db')"
    using getStateVector_tx_miss [OF cache miss log, of Y] by (simp add: db'_def fresh_def)
  have ne: "db' \<noteq> db"
  proof
    assume eq: "db' = db"
    from f(5) have "getCurrentUpdateClock db dn = getCurrentUpdateClock db dn + 1"
      by (simp add: eq)
    then show False by simp
  qed
  have again: "getStateVector_tx Y dn db' = (Inr fresh, db')"
    using f(2) f(5) by (intro getStateVector_tx_hit) simp_all
  show "let fresh = snd (mergeUpdates Y updates);
            db' = fst (flushDocument Y db dn (fst (mergeUpdates Y updates)) fresh)
        in getStateVector_tx Y dn db = (Inr fresh, db') \<and>
           db' \<noteq> db \<and>
           readStateVector db' dn = Inr (Some fresh, getCurrentUpdateClock db dn + 1) \<and>
           getCurrentUpdateClock db' dn = getCurrentUpdateClock db dn + 1 \<and>
           getStateVector_tx Y dn db' = (Inr fresh, db')"
    unfolding Let_def fresh_def [symmetric] db'_def [symmetric]
    using r ne f(2) f(5) again by blast
qed

section \<open>The bulk paths on a store that does not fail\<close>

lemma retryMongoOperation_success:
  "0 < retries \<Longrightarrow> task s = (Inr v, s') \<Longrightarrow> retryMongoOperation task retries delay s = (Inr v, s', [])"
  unfolding retryMongoOperation_def by (subst retryLoop.simps) simp

lemma entrySlices_short:
  "entries \<noteq> [] \<Longrightarrow> length entries \<le> concurrencyLimit \<Longrightarrow> entrySlices entries = [entries]"
  by (subst entrySlices.simps) (simp add: entrySlices.simps [of "[]"])

lemma entrySlices_Nil [simp]: "entrySlices [] = []"
  by (simp add: entrySlices.simps)

lemma bulkWriteWithConcurrency_short:
  assumes "length m \<le> concurrencyLimit"
  shows "bulkWriteWithConcurrency db m = (Inr (), db_bulkPut db m, [])"
proof (cases "m = []")
  case True
  then show ?thesis by (simp add: bulkWriteWithConcurrency_def db_bulkPut_def)
next
  case False
  have c: "\<not> concurrencyLimit \<le> Suc 0" by (simp add: concurrencyLimit_def)
  show ?thesis
    using False assms c
    by (simp add: bulkWriteWithConcurrency_def entrySlices_short retryMongoOperation_success)
qed

lemma storeUpdates_one:
  "dn \<noteq> ''__proto__'' \<Longrightarrow> length update \<le> MAX_DOCUMENT_SIZE \<Longrightarrow>
   storeUpdates Y db [(dn, update)] =
     (Inr 0,
      db_put (db_put db (createDocumentStateVectorKey dn)
                (encodeStateVector (- 1) (Y_encodeStateVector Y (Y_applyUpdate Y (Y_Doc Y) update))))
        (createDocumentUpdateKey dn (Some 0)) update)"
  by (simp add: storeUpdates_def bulkMaps_def bulkEntry_def objectAssign_def
      bulkWriteWithConcurrency_short concurrencyLimit_def db_bulkPut_def)

text \<open>A document named \<^verbatim>\<open>__proto__\<close> whose update fits one record is not stored at all.\<close>

lemma storeUpdates_proto:
  "length update \<le> MAX_DOCUMENT_SIZE \<Longrightarrow>
   storeUpdates Y db [(''__proto__'', update)] = (Inr 0, db)"
  by (simp add: storeUpdates_def bulkMaps_def bulkEntry_def objectAssign_def
      bulkWriteWithConcurrency_short concurrencyLimit_def db_bulkPut_def)

lemma insertUpdates_proto:
  "length update \<le> MAX_DOCUMENT_SIZE \<Longrightarrow>
   insertUpdates Y db [(''__proto__'', update)] = (Inr 0, db)"
  by (simp add: insertUpdates_def bulkMaps_def bulkEntry_def objectAssign_def
      retryMongoOperation_success db_bulkInsert_def)
section \<open>A bulk import followed by 127 appended updates\<close>

lemma importedStore_eq:
  "importedStore =
     [newRecord (createDocumentStateVectorKey ''doc1'') [127, 1, 1], updateRecord ''doc1'' 0 [1]]"
proof -
  have w: "writeVarUint (- 1) = [127]" "writeVarUint 1 = [1]"
    by (simp_all add: writeVarUint.simps BITS7_def BIT8_def)
  have e: "encodeStateVector (- 1) [1] = [127, 1, 1]"
    by (simp add: encodeStateVector_def writeVarUint8Array_def w)
  have y: "Y_encodeStateVector concatEngine (Y_applyUpdate concatEngine (Y_Doc concatEngine) [1]) = [1]"
    by (simp add: concatEngine_def)
  show ?thesis
    unfolding importedStore_def
    by (simp add: storeUpdates_one MAX_DOCUMENT_SIZE_def y e updateRecord_def matches_updateKey)
qed

lemma storeUpdateSeq_small:
  assumes "getCurrentUpdateClock db dn + int (length us) < BITS32"
    and "getCurrentUpdateClock db dn \<noteq> - 1"
    and "\<forall>u \<in> set us. length u \<le> MAX_DOCUMENT_SIZE"
  shows "fst (storeUpdateSeq Y db dn us) =
           db @ map (\<lambda>i. updateRecord dn (getCurrentUpdateClock db dn + 1 + int i) (us ! i))
                  [0 ..< length us]"
  using assms
proof (induction us arbitrary: db)
  case Nil
  show ?case by simp
next
  case (Cons u us)
  let ?c = "getCurrentUpdateClock db dn"
  let ?db' = "db @ [updateRecord dn (?c + 1) u]"
  have range: "?c + 1 < BITS32" using Cons.prems(1) by simp
  have small: "length u \<le> MAX_DOCUMENT_SIZE" using Cons.prems(3) by simp
  have f: "firstStateVector Y db dn u = db" using Cons.prems(2) by (simp add: firstStateVector_def)
  have db': "fst (storeUpdate Y db dn u) = ?db'"
    using storeUpdate_fresh [OF range, of Y u] small
    by (simp add: f updateRecords_def updateRecord_def)
  have su: "storeUpdate Y db dn u = (?db', ?c + 1)"
    using db' by (simp add: storeUpdate_eq)
  have g: "getCurrentUpdateClock ?db' dn = ?c + 1"
    using getCurrentUpdateClock_storeUpdate [OF range, of Y u] by (simp only: db')
  have c0: "- 1 \<le> ?c" using getCurrentUpdateClock_range [of db dn] by simp
  have "fst (storeUpdateSeq Y ?db' dn us) =
          ?db' @ map (\<lambda>i. updateRecord dn (getCurrentUpdateClock ?db' dn + 1 + int i) (us ! i))
                   [0 ..< length us]"
    using Cons.prems c0 by (intro Cons.IH) (simp_all add: g)
  then have IH: "fst (storeUpdateSeq Y ?db' dn us) =
          ?db' @ map (\<lambda>i. updateRecord dn (?c + 1 + int (Suc i)) ((u # us) ! Suc i))
                   [0 ..< length us]"
    by (simp add: g add.assoc)
  have "fst (storeUpdateSeq Y db dn (u # us)) = fst (storeUpdateSeq Y ?db' dn us)"
    by (simp add: su split: prod.splits)
  then show ?case
    unfolding IH by (simp add: map_upt_Suc del: upt_Suc)
qed

lemma convertMongoUpdates_unflagged:
  "\<forall>d \<in> set docs. \<not> truthy (part d) \<Longrightarrow> convertMongoUpdates docs = Inr (map val docs)"
  by (induction docs) simp_all


lemma getCurrentUpdateClock_importedStore: "getCurrentUpdateClock importedStore ''doc1'' = 0"
  unfolding importedStore_eq
  by (rule getCurrentUpdateClock_eqI [of "updateRecord ''doc1'' 0 [1]"])
    (simp_all add: updateRecord_def matches_currentClockQuery BITS32_def)

lemma staleStore_eq:
  "staleStore =
     newRecord (createDocumentStateVectorKey ''doc1'') [127, 1, 1] #
     updateRecord ''doc1'' 0 [1] #
     map (\<lambda>i. updateRecord ''doc1'' (1 + int i) [2]) [0 ..< 127]"
proof -
  have "fst (storeUpdateSeq concatEngine importedStore ''doc1'' (replicate 127 [2])) =
          importedStore @
          map (\<lambda>i. updateRecord ''doc1'' (getCurrentUpdateClock importedStore ''doc1'' + 1 + int i)
                  (replicate 127 [2] ! i))
            [0 ..< length (replicate 127 ([2] :: bytes))]"
    by (rule storeUpdateSeq_small)
      (simp_all add: getCurrentUpdateClock_importedStore BITS32_def MAX_DOCUMENT_SIZE_def)
  also have "map (\<lambda>i. updateRecord ''doc1'' (getCurrentUpdateClock importedStore ''doc1'' + 1 + int i)
                  (replicate 127 [2] ! i))
               [0 ..< length (replicate 127 ([2] :: bytes))]
             = map (\<lambda>i. updateRecord ''doc1'' (1 + int i) [2]) [0 ..< 127]"
    by (rule map_cong) (simp_all add: getCurrentUpdateClock_importedStore)
  finally show ?thesis by (simp add: staleStore_def importedStore_eq)
qed

lemma staleStore_updates:
  "filter (matches (createDocumentUpdateKey ''doc1'' None)) staleStore =
     updateRecord ''doc1'' 0 [1] # map (\<lambda>i. updateRecord ''doc1'' (1 + int i) [2]) [0 ..< 127]"
  unfolding staleStore_eq
  by (simp add: matches_updateKey updateRecord_def filter_id_conv del: upt_rec_numeral)

lemma staleStore_stateVectors:
  "filter (matches (createDocumentStateVectorKey ''doc1'')) staleStore =
     [newRecord (createDocumentStateVectorKey ''doc1'') [127, 1, 1]]"
  unfolding staleStore_eq
  by (simp add: matches_svKey updateRecord_def filter_empty_conv del: upt_rec_numeral)

lemma staleStore_clock: "getCurrentUpdateClock staleStore ''doc1'' = 127"
proof (rule getCurrentUpdateClock_eqI [of "updateRecord ''doc1'' 127 [2]"])
  have "updateRecord ''doc1'' (1 + int 126) [2]
          \<in> (\<lambda>i. updateRecord ''doc1'' (1 + int i) [2]) ` {0 ..< 127}"
    by (rule imageI) simp
  then show "updateRecord ''doc1'' 127 [2] \<in> set staleStore"
    unfolding staleStore_eq by (simp del: upt_rec_numeral)
  show "matches (currentClockQuery ''doc1'') (updateRecord ''doc1'' 127 [2])"
    by (simp add: updateRecord_def matches_currentClockQuery BITS32_def)
  show "clock (updateRecord ''doc1'' 127 [2]) = Some 127" by (simp add: updateRecord_def)
  show "\<forall>e \<in> set staleStore. matches (currentClockQuery ''doc1'') e \<longrightarrow> clock e \<le> Some 127"
    unfolding staleStore_eq
    by (auto simp: updateRecord_def matches_currentClockQuery simp del: upt_rec_numeral)
qed

lemma staleStore_log: "getMongoUpdates staleStore ''doc1'' = Inr ([1] # replicate 127 [2])"
proof -
  let ?log = "updateRecord ''doc1'' 0 [1] # map (\<lambda>i. updateRecord ''doc1'' (1 + int i) [2]) [0 ..< 127]"
  have "sorted (map (\<lambda>i. (Some (1 + int i), None :: int option)) [0 ..< n])" for n
    by (simp only: sorted_iff_nth_mono) (simp add: less_eq_prod_def)
  then have "sorted (map (\<lambda>d. (clock d, part d)) (map (\<lambda>i. updateRecord ''doc1'' (1 + int i) [2]) [0 ..< 127]))"
    by (simp add: updateRecord_def comp_def del: upt_rec_numeral)
  then have ord: "orderedRecords ?log"
    by (auto simp: orderedRecords_def updateRecord_def less_eq_prod_def simp del: upt_rec_numeral)
  have all: "\<forall>d \<in> set ?log. matches (createDocumentUpdateKey ''doc1'' None) d"
    by (auto simp: updateRecord_def matches_updateKey simp del: upt_rec_numeral)
  have "db_find staleStore (createDocumentUpdateKey ''doc1'' None) = ?log"
    using ord all staleStore_updates by (rule db_find_sorted)
  moreover have "\<forall>d \<in> set ?log. \<not> truthy (part d)"
    by (auto simp: updateRecord_def truthy_def simp del: upt_rec_numeral)
  then have "convertMongoUpdates ?log = Inr (map val ?log)" by (rule convertMongoUpdates_unflagged)
  moreover have "map val ?log = [1] # replicate 127 [2]"
    by (simp add: updateRecord_def comp_def map_replicate_const del: upt_rec_numeral)
  ultimately show ?thesis by (simp add: getMongoUpdates_def del: upt_rec_numeral)
qed

lemma staleStore_cache: "readStateVector staleStore ''doc1'' = Inr (Some [1], 127)"
proof -
  have p: "plainStateVectors staleStore ''doc1''"
    unfolding plainStateVectors_iff staleStore_stateVectors by simp
  have d: "decodeMongodbStateVector (Binary [127, 1, 1]) = Inr ([1], 127)"
    by (simp add: decodeMongodbStateVector_def readVarUint_def readVarUint8Array_def
        BITS7_def BIT8_def)
  show ?thesis
    unfolding readStateVector_def db_findOne_plain [OF p] staleStore_stateVectors
    by (simp add: d)
qed

lemma showNat_1: "showNat (Suc 0) = ''1''" by (subst showNat.simps) simp
lemma showNat_2: "showNat (Suc (Suc 0)) = ''2''" by (subst showNat.simps) simp
lemma upt_0_2: "[0 ..< 2] = [0, Suc 0]" by (simp add: upt_conv_Cons)

lemma bulkMaps_collision:
  "bulkMaps concatEngine (- 1) [(''a'', replicate 20000000 0), (''a-part1'', [0, 0])] =
     ([(''a'', (createDocumentStateVectorKey ''a'', encodeStateVector (- 1) [0])),
       (''a-part1'', (createDocumentStateVectorKey ''a-part1'', encodeStateVector (- 1) [2]))],
      [(''a-part1'', (createDocumentUpdateKey ''a-part1'' (Some 0), [0, 0])),
       (''a-part2'', ((createDocumentUpdateKey ''a'' (Some 0))\<lparr>q_part := Some 2\<rparr>,
                      replicate 5000000 0))])"
proof -
  have n: "totalChunks (replicate 20000000 (0 :: byte)) = 2"
    by (simp add: totalChunks_def MAX_DOCUMENT_SIZE_def)
  have c0: "chunkOf (replicate 20000000 (0 :: byte)) 0 = replicate 15000000 0"
    by (simp add: chunkOf_def MAX_DOCUMENT_SIZE_def Let_def)
  have c1: "chunkOf (replicate 20000000 (0 :: byte)) (Suc 0) = replicate 5000000 0"
    by (simp add: chunkOf_def MAX_DOCUMENT_SIZE_def Let_def)
  have b: "(20000000 :: byte) = 0" by simp
  show ?thesis
    by (simp add: bulkMaps_def bulkEntry_def objectAssign_def n upt_0_2 c0 c1 showNat_1 showNat_2
        concatEngine_def MAX_DOCUMENT_SIZE_def b)
qed


section \<open>C1: the clock \<open>storeUpdate\<close> returns\<close>

text \<open>C1, as stated: successive calls on one document return strictly increasing clocks.
  \<open>getCurrentUpdateClock\<close> only looks at clocks below \<open>BITS32 = 4294967295\<close>. On a
  document whose log stands at clock 4294967294, two successive calls both return
  4294967295, and the second overwrites the record the first wrote.\<close>

theorem storeUpdate_clock_counterexample:
  "storeUpdateSeq concatEngine [updateRecord ''doc1'' 4294967294 [7]] ''doc1'' [[1], [2]]
   = ([updateRecord ''doc1'' 4294967294 [7], updateRecord ''doc1'' 4294967295 [2]],
      [4294967295, 4294967295])"
  by (simp add: storeUpdate_def getCurrentUpdateClock_def db_findOne_def db_find_def
      updateRecord_def newRecord_def createDocumentUpdateKey_def currentClockQuery_def
      matches_def field_matches_def clock_matches_def BITS32_def putUpdateRecords_def
      MAX_DOCUMENT_SIZE_def Let_def)

text \<open>C1, amended: \<open>storeUpdate\<close> returns the current clock plus one; as long as the returned
  clock is below \<open>BITS32\<close> it is the current clock afterwards, so that the next call
  returns exactly one more; \<open>n\<close> successive calls on a document without update records
  return \<open>0, 1, \<dots>, n - 1\<close>, for every \<open>n\<close> up to \<open>BITS32 + 1\<close>; and when the current clock
  is \<open>-1\<close> the state vector of the update is derived with the engine and a state-vector
  record with the value \<open>encodeStateVector 0 sv\<close> is written before the update record is,
  and is in the store afterwards.\<close>

theorem storeUpdate_clock:
  "snd (storeUpdate Y db dn update) = getCurrentUpdateClock db dn + 1 \<and>
   (getCurrentUpdateClock db dn + 1 < BITS32 \<longrightarrow>
      getCurrentUpdateClock (fst (storeUpdate Y db dn update)) dn
        = getCurrentUpdateClock db dn + 1) \<and>
   (getCurrentUpdateClock db dn = - 1 \<longrightarrow> int (length updates) \<le> BITS32 + 1 \<longrightarrow>
      snd (storeUpdateSeq Y db dn updates) = map int [0 ..< length updates]) \<and>
   (getCurrentUpdateClock db dn = - 1 \<longrightarrow>
      (let sv = Y_encodeStateVector Y (Y_applyUpdate Y (Y_Doc Y) update);
           db1 = writeStateVector db dn sv 0
       in fst (storeUpdate Y db dn update) = putUpdateRecords db1 dn 0 update \<and>
          (\<exists>d \<in> set db1. matches (createDocumentStateVectorKey dn) d \<and>
                           val d = encodeStateVector 0 sv) \<and>
          (\<exists>d \<in> set (fst (storeUpdate Y db dn update)).
              matches (createDocumentStateVectorKey dn) d \<and> val d = encodeStateVector 0 sv)))"
proof (intro conjI impI)
  show "snd (storeUpdate Y db dn update) = getCurrentUpdateClock db dn + 1"
    by (simp add: storeUpdate_eq)
  show "getCurrentUpdateClock (fst (storeUpdate Y db dn update)) dn = getCurrentUpdateClock db dn + 1"
    if "getCurrentUpdateClock db dn + 1 < BITS32"
    using that by (rule getCurrentUpdateClock_storeUpdate)
  show "snd (storeUpdateSeq Y db dn updates) = map int [0 ..< length updates]"
    if "getCurrentUpdateClock db dn = - 1" "int (length updates) \<le> BITS32 + 1"
    using storeUpdateSeq_clocks [of db dn updates Y] that by simp
  show "let sv = Y_encodeStateVector Y (Y_applyUpdate Y (Y_Doc Y) update);
           db1 = writeStateVector db dn sv 0
       in fst (storeUpdate Y db dn update) = putUpdateRecords db1 dn 0 update \<and>
          (\<exists>d \<in> set db1. matches (createDocumentStateVectorKey dn) d \<and>
                           val d = encodeStateVector 0 sv) \<and>
          (\<exists>d \<in> set (fst (storeUpdate Y db dn update)).
              matches (createDocumentStateVectorKey dn) d \<and> val d = encodeStateVector 0 sv)"
    if m1: "getCurrentUpdateClock db dn = - 1"
  proof -
    define sv where "sv = Y_encodeStateVector Y (Y_applyUpdate Y (Y_Doc Y) update)"
    define db1 where "db1 = writeStateVector db dn sv 0"
    let ?S = "matches (createDocumentStateVectorKey dn)"
    have a: "fst (storeUpdate Y db dn update) = putUpdateRecords db1 dn 0 update"
      using m1 by (simp add: storeUpdate_def db1_def sv_def)
    obtain d where d: "d \<in> set db1" "?S d" "val d = encodeStateVector 0 sv"
      unfolding db1_def using writeStateVector_record [of db dn sv 0] by blast
    then have "d \<in> set (filter ?S db1)" by simp
    then have "d \<in> set (filter ?S (putUpdateRecords db1 dn 0 update))"
      by (simp only: putUpdateRecords_stateVectors)
    then have "d \<in> set (fst (storeUpdate Y db dn update))" unfolding a by simp
    with a d show ?thesis unfolding Let_def sv_def [symmetric] db1_def [symmetric] by blast
  qed
qed

text \<open>On the empty store.\<close>

theorem storeUpdate_clock_witness:
  "getCurrentUpdateClock [] ''doc1'' = - 1 \<and> getCurrentUpdateClock [] ''doc1'' + 1 < BITS32 \<and>
   int (length [[1], [2 :: byte]]) \<le> BITS32 + 1 \<and>
   snd (storeUpdate concatEngine [] ''doc1'' [1]) = 0 \<and>
   getCurrentUpdateClock (fst (storeUpdate concatEngine [] ''doc1'' [1])) ''doc1'' = 0 \<and>
   snd (storeUpdateSeq concatEngine [] ''doc1'' [[1], [2]]) = [0, 1] \<and>
   (\<exists>d \<in> set (fst (storeUpdate concatEngine [] ''doc1'' [1])).
      matches (createDocumentStateVectorKey ''doc1'') d \<and> val d = encodeStateVector 0 [1])"
proof -
  have g: "getCurrentUpdateClock [] ''doc1'' = - 1"
    by (simp add: getCurrentUpdateClock_none)
  have e: "Y_encodeStateVector concatEngine
             (Y_applyUpdate concatEngine (Y_Doc concatEngine) [1]) = [1]"
    by (simp add: concatEngine_def)
  note t = storeUpdate_clock [of concatEngine "[]" "''doc1''" "[1]" "[[1], [2]]"]
  have c1: "snd (storeUpdate concatEngine [] ''doc1'' [1]) = 0"
    using t [THEN conjunct1] by (simp add: g)
  have c2: "getCurrentUpdateClock (fst (storeUpdate concatEngine [] ''doc1'' [1])) ''doc1'' = 0"
    using t [THEN conjunct2, THEN conjunct1] by (simp add: g BITS32_def)
  have c3: "snd (storeUpdateSeq concatEngine [] ''doc1'' [[1], [2]]) = [0, 1]"
    using t [THEN conjunct2, THEN conjunct2, THEN conjunct1] g
    by (simp add: BITS32_def upt_conv_Cons del: storeUpdateSeq.simps)
  have c4: "\<exists>d \<in> set (fst (storeUpdate concatEngine [] ''doc1'' [1])).
              matches (createDocumentStateVectorKey ''doc1'') d \<and> val d = encodeStateVector 0 [1]"
    using t [THEN conjunct2, THEN conjunct2, THEN conjunct2, rule_format, OF g]
    unfolding Let_def e by blast
  show ?thesis using g c1 c2 c3 c4 by (simp add: BITS32_def del: storeUpdateSeq.simps)
qed

section \<open>C2: \<open>flushDocument\<close> appends, stamps, then truncates\<close>

text \<open>C2, as stated: the consolidated update becomes a new record at \<open>oldMaxClock + 1\<close>,
  never overwriting a record, and afterwards exactly one update record remains. Two inputs
  show otherwise. With update records at clocks 4294967294 and 4294967295 (all within
  \<open>[0, 4294967295]\<close>) the flush returns 4294967295, not 4294967296, and overwrites the record
  stored at that clock. And a consolidated update of 20 MB is stored as parts: after the
  flush of an empty document two update records remain.\<close>

theorem flushDocument_counterexample:
  "flushDocument concatEngine
     [updateRecord ''doc1'' 4294967294 [7], updateRecord ''doc1'' 4294967295 [8]] ''doc1'' [9] [1]
   = ([updateRecord ''doc1'' 4294967295 [9],
       newRecord (createDocumentStateVectorKey ''doc1'') [255, 255, 255, 255, 15, 1, 1]],
      4294967295) \<and>
   length (filter (matches (createDocumentUpdateKey ''doc1'' None))
             (fst (flushDocument concatEngine [] ''doc1'' (replicate 20000000 0) [1]))) = 2"
proof
  have w: "writeVarUint 4294967295 = [255, 255, 255, 255, 15]" "writeVarUint 1 = [1]"
    by (simp_all add: writeVarUint.simps BITS7_def BIT8_def)
  show "flushDocument concatEngine
     [updateRecord ''doc1'' 4294967294 [7], updateRecord ''doc1'' 4294967295 [8]] ''doc1'' [9] [1]
   = ([updateRecord ''doc1'' 4294967295 [9],
       newRecord (createDocumentStateVectorKey ''doc1'') [255, 255, 255, 255, 15, 1, 1]],
      4294967295)"
    by (simp add: flushDocument_def storeUpdate_def getCurrentUpdateClock_def db_findOne_def
        db_find_def updateRecord_def newRecord_def createDocumentUpdateKey_def
        createDocumentStateVectorKey_def currentClockQuery_def matches_def field_matches_def
        clock_matches_def BITS32_def putUpdateRecords_def MAX_DOCUMENT_SIZE_def Let_def
        writeStateVector_def writeVarUint8Array_def w clearUpdatesRange_def db_delete_def)
next
  let ?u = "replicate 20000000 (0 :: byte)"
  have g: "getCurrentUpdateClock [] ''doc1'' = - 1" by (simp add: getCurrentUpdateClock_none)
  have v: "validClocks [] ''doc1''" by (simp add: validClocks_def)
  have "totalChunks ?u = 2" by (simp add: totalChunks_def MAX_DOCUMENT_SIZE_def)
  then have "length (updateRecords ''doc1'' 0 ?u) = 2"
    by (simp add: length_updateRecords MAX_DOCUMENT_SIZE_def)
  then show "length (filter (matches (createDocumentUpdateKey ''doc1'' None))
             (fst (flushDocument concatEngine [] ''doc1'' ?u [1]))) = 2"
    unfolding flushDocument_updates [OF v] g by simp
qed

text \<open>C2, amended: given a document whose update records all have clocks in the valid range
  \<open>0 \<le> clock < BITS32\<close>, whose state-vector records carry no clock (and a state vector of a
  length JavaScript represents exactly), and with \<open>oldMaxClock\<close> the current clock (the
  greatest stored clock, or \<open>-1\<close>): all update records of the document have clocks in
  \<open>[0, oldMaxClock]\<close>; \<open>flushDocument\<close> returns \<open>newClock = oldMaxClock + 1\<close>; no stored record
  had that clock, so nothing is overwritten; the store is the one obtained by storing the
  update, then writing the state-vector record with \<open>newClock\<close>, then deleting the records of
  the document with \<open>0 \<le> clock < newClock\<close>; reading the state vector back gives the new
  one, stamped \<open>newClock\<close>; the update records left for the document are exactly the records
  of the consolidated update at \<open>newClock\<close> (exactly one when it fits one record, else its
  parts); the records of other documents are untouched; and reading the log gives exactly
  the consolidated update. This includes \<open>oldMaxClock = 4294967294\<close>, where the new record is
  stored at \<open>newClock = BITS32\<close>. The current clock read afterwards is \<open>newClock\<close> when
  \<open>newClock < BITS32\<close>, and \<open>-1\<close> when \<open>newClock = BITS32\<close>.\<close>

theorem flushDocument_appends_then_truncates:
  assumes valid: "validClocks db dn" and plain: "plainStateVectors db dn"
    and len: "int (length stateVector) \<le> MAX_SAFE_INTEGER"
  shows "let oldMaxClock = getCurrentUpdateClock db dn;
             db' = fst (flushDocument Y db dn stateAsUpdate stateVector);
             newClock = snd (flushDocument Y db dn stateAsUpdate stateVector)
         in (\<forall>d \<in> set db. matches (createDocumentUpdateKey dn None) d
               \<longrightarrow> Some 0 \<le> clock d \<and> clock d \<le> Some oldMaxClock) \<and>
            newClock = oldMaxClock + 1 \<and>
            (\<forall>d \<in> set db. \<not> matches (createDocumentUpdateKey dn (Some newClock)) d) \<and>
            db' = clearUpdatesRange
                    (writeStateVector (fst (storeUpdate Y db dn stateAsUpdate)) dn stateVector newClock)
                    dn 0 newClock \<and>
            readStateVector db' dn = Inr (Some stateVector, newClock) \<and>
            filter (matches (createDocumentUpdateKey dn None)) db'
              = updateRecords dn newClock stateAsUpdate \<and>
            (length stateAsUpdate \<le> MAX_DOCUMENT_SIZE \<longrightarrow>
               filter (matches (createDocumentUpdateKey dn None)) db'
                 = [updateRecord dn newClock stateAsUpdate]) \<and>
            filter (\<lambda>d. docName d \<noteq> Some dn) db' = filter (\<lambda>d. docName d \<noteq> Some dn) db \<and>
            getMongoUpdates db' dn = Inr [stateAsUpdate] \<and>
            (newClock < BITS32 \<longrightarrow> getCurrentUpdateClock db' dn = newClock) \<and>
            (newClock = BITS32 \<longrightarrow> getCurrentUpdateClock db' dn = - 1)"
proof -
  define c where "c = getCurrentUpdateClock db dn + 1"
  define db' where "db' = fst (flushDocument Y db dn stateAsUpdate stateVector)"
  have n: "snd (flushDocument Y db dn stateAsUpdate stateVector) = c"
    by (simp add: flushDocument_eq c_def)
  have old: "Some 0 \<le> clock d \<and> clock d \<le> Some (getCurrentUpdateClock db dn)"
    if "d \<in> set db" "matches (createDocumentUpdateKey dn None) d" for d
  proof -
    from that valid have m: "matches (currentClockQuery dn) d" by (auto simp: validClocks_iff)
    then have "Some 0 \<le> clock d" by (auto simp: matches_currentClockQuery)
    with getCurrentUpdateClock_upper [OF that(1) m] show ?thesis by simp
  qed
  have fresh: "\<forall>d \<in> set db. \<not> matches (createDocumentUpdateKey dn (Some c)) d"
    unfolding c_def using valid by (rule no_record_at_next_clock)
  have order: "db' = clearUpdatesRange
                    (writeStateVector (fst (storeUpdate Y db dn stateAsUpdate)) dn stateVector c)
                    dn 0 c"
    by (simp add: db'_def flushDocument_eq c_def)
  have sv: "readStateVector db' dn = Inr (Some stateVector, c)"
    unfolding db'_def c_def using plain len by (rule flushDocument_stateVector)
  have recs: "filter (matches (createDocumentUpdateKey dn None)) db' = updateRecords dn c stateAsUpdate"
    unfolding db'_def c_def using valid by (rule flushDocument_updates)
  have one: "filter (matches (createDocumentUpdateKey dn None)) db' = [updateRecord dn c stateAsUpdate]"
    if "length stateAsUpdate \<le> MAX_DOCUMENT_SIZE"
    using that recs by (simp add: updateRecords_def updateRecord_def)
  have other: "filter (\<lambda>d. docName d \<noteq> Some dn) db' = filter (\<lambda>d. docName d \<noteq> Some dn) db"
    unfolding db'_def by (rule flushDocument_other_docs)
  have load: "getMongoUpdates db' dn = Inr [stateAsUpdate]"
    using recs by (rule getMongoUpdates_updateRecords)
  have c0: "0 \<le> c" using getCurrentUpdateClock_range [of db dn] by (simp add: c_def)
  have cur: "getCurrentUpdateClock db' dn = c" if "c < BITS32"
    using recs c0 that by (rule getCurrentUpdateClock_updateRecords)
  have top: "getCurrentUpdateClock db' dn = - 1" if "c = BITS32"
  proof -
    from that have "BITS32 \<le> c" by simp
    with recs show ?thesis by (rule getCurrentUpdateClock_out_of_range)
  qed
  show ?thesis
    unfolding Let_def db'_def [symmetric] n
    using old fresh order sv recs one other load cur top by (simp add: c_def)
qed


text \<open>The scenario of the spec, with two stored updates and a record of another document;
  and a document whose only update record is at clock 4294967294, where the flush stores
  the consolidated update at 4294967295 and leaves exactly that record.\<close>

theorem flushDocument_appends_then_truncates_witness:
  "validClocks [updateRecord ''doc1'' 0 [7], updateRecord ''doc1'' 1 [8], updateRecord ''doc2'' 0 [5]] ''doc1'' \<and>
   plainStateVectors [updateRecord ''doc1'' 0 [7], updateRecord ''doc1'' 1 [8], updateRecord ''doc2'' 0 [5]] ''doc1'' \<and>
   int (length [1 :: byte]) \<le> MAX_SAFE_INTEGER \<and>
   length [9 :: byte] \<le> MAX_DOCUMENT_SIZE \<and>
   snd (flushDocument concatEngine
          [updateRecord ''doc1'' 0 [7], updateRecord ''doc1'' 1 [8], updateRecord ''doc2'' 0 [5]]
          ''doc1'' [9] [1]) = 2 \<and>
   filter (matches (createDocumentUpdateKey ''doc1'' None))
     (fst (flushDocument concatEngine
             [updateRecord ''doc1'' 0 [7], updateRecord ''doc1'' 1 [8], updateRecord ''doc2'' 0 [5]]
             ''doc1'' [9] [1])) = [updateRecord ''doc1'' 2 [9]] \<and>
   readStateVector
     (fst (flushDocument concatEngine
             [updateRecord ''doc1'' 0 [7], updateRecord ''doc1'' 1 [8], updateRecord ''doc2'' 0 [5]]
             ''doc1'' [9] [1])) ''doc1'' = Inr (Some [1], 2) \<and>
   getCurrentUpdateClock
     (fst (flushDocument concatEngine
             [updateRecord ''doc1'' 0 [7], updateRecord ''doc1'' 1 [8], updateRecord ''doc2'' 0 [5]]
             ''doc1'' [9] [1])) ''doc1'' = 2 \<and>
   validClocks [updateRecord ''doc1'' 4294967294 [7]] ''doc1'' \<and>
   plainStateVectors [updateRecord ''doc1'' 4294967294 [7]] ''doc1'' \<and>
   snd (flushDocument concatEngine [updateRecord ''doc1'' 4294967294 [7]] ''doc1'' [9] [1])
     = 4294967295 \<and>
   filter (matches (createDocumentUpdateKey ''doc1'' None))
     (fst (flushDocument concatEngine [updateRecord ''doc1'' 4294967294 [7]] ''doc1'' [9] [1]))
     = [updateRecord ''doc1'' 4294967295 [9]] \<and>
   readStateVector
     (fst (flushDocument concatEngine [updateRecord ''doc1'' 4294967294 [7]] ''doc1'' [9] [1]))
     ''doc1'' = Inr (Some [1], 4294967295) \<and>
   getCurrentUpdateClock
     (fst (flushDocument concatEngine [updateRecord ''doc1'' 4294967294 [7]] ''doc1'' [9] [1]))
     ''doc1'' = - 1"
proof -
  let ?db = "[updateRecord ''doc1'' 0 [7], updateRecord ''doc1'' 1 [8], updateRecord ''doc2'' 0 [5]]"
  let ?top = "[updateRecord ''doc1'' 4294967294 [7]]"
  have l: "int (length [1 :: byte]) \<le> MAX_SAFE_INTEGER" by (simp add: MAX_SAFE_INTEGER_def)
  have s: "length [9 :: byte] \<le> MAX_DOCUMENT_SIZE" by (simp add: MAX_DOCUMENT_SIZE_def)
  have v: "validClocks ?db ''doc1''"
    by (simp add: validClocks_def updateRecord_def matches_updateKey matches_currentClockQuery
        BITS32_def)
  have p: "plainStateVectors ?db ''doc1''"
    by (simp add: plainStateVectors_def updateRecord_def matches_svKey)
  have g: "getCurrentUpdateClock ?db ''doc1'' = 1"
    by (rule getCurrentUpdateClock_eqI [of "updateRecord ''doc1'' 1 [8]"])
      (simp_all add: updateRecord_def matches_currentClockQuery BITS32_def)
  note t = flushDocument_appends_then_truncates [OF v p l, of concatEngine "[9]", unfolded Let_def g]
  have c1: "snd (flushDocument concatEngine ?db ''doc1'' [9] [1]) = 2"
    using t [THEN conjunct2, THEN conjunct1] by simp
  have c2: "readStateVector (fst (flushDocument concatEngine ?db ''doc1'' [9] [1])) ''doc1''
            = Inr (Some [1], 2)"
    using t [THEN conjunct2, THEN conjunct2, THEN conjunct2, THEN conjunct2, THEN conjunct1]
    by (simp only: c1)
  have c3: "filter (matches (createDocumentUpdateKey ''doc1'' None))
              (fst (flushDocument concatEngine ?db ''doc1'' [9] [1])) = [updateRecord ''doc1'' 2 [9]]"
    using t [THEN conjunct2, THEN conjunct2, THEN conjunct2, THEN conjunct2, THEN conjunct2,
             THEN conjunct2, THEN conjunct1] s
    by (simp only: c1)
  have c4: "getCurrentUpdateClock (fst (flushDocument concatEngine ?db ''doc1'' [9] [1])) ''doc1'' = 2"
    using t [THEN conjunct2, THEN conjunct2, THEN conjunct2, THEN conjunct2, THEN conjunct2,
             THEN conjunct2, THEN conjunct2, THEN conjunct2, THEN conjunct2, THEN conjunct1]
    by (simp only: c1) (simp add: BITS32_def)
  have v': "validClocks ?top ''doc1''"
    by (simp add: validClocks_def updateRecord_def matches_updateKey matches_currentClockQuery
        BITS32_def)
  have p': "plainStateVectors ?top ''doc1''"
    by (simp add: plainStateVectors_def updateRecord_def matches_svKey)
  have g': "getCurrentUpdateClock ?top ''doc1'' = 4294967294"
    by (rule getCurrentUpdateClock_eqI [of "updateRecord ''doc1'' 4294967294 [7]"])
      (simp_all add: updateRecord_def matches_currentClockQuery BITS32_def)
  note t' = flushDocument_appends_then_truncates [OF v' p' l, of concatEngine "[9]",
      unfolded Let_def g']
  have d1: "snd (flushDocument concatEngine ?top ''doc1'' [9] [1]) = 4294967295"
    using t' [THEN conjunct2, THEN conjunct1] by simp
  have d2: "readStateVector (fst (flushDocument concatEngine ?top ''doc1'' [9] [1])) ''doc1''
            = Inr (Some [1], 4294967295)"
    using t' [THEN conjunct2, THEN conjunct2, THEN conjunct2, THEN conjunct2, THEN conjunct1]
    by (simp only: d1)
  have d3: "filter (matches (createDocumentUpdateKey ''doc1'' None))
              (fst (flushDocument concatEngine ?top ''doc1'' [9] [1]))
            = [updateRecord ''doc1'' 4294967295 [9]]"
    using t' [THEN conjunct2, THEN conjunct2, THEN conjunct2, THEN conjunct2, THEN conjunct2,
              THEN conjunct2, THEN conjunct1] s
    by (simp only: d1)
  have d4: "getCurrentUpdateClock (fst (flushDocument concatEngine ?top ''doc1'' [9] [1])) ''doc1''
            = - 1"
    using t' [THEN conjunct2, THEN conjunct2, THEN conjunct2, THEN conjunct2, THEN conjunct2,
              THEN conjunct2, THEN conjunct2, THEN conjunct2, THEN conjunct2, THEN conjunct2]
    by (simp only: d1) (simp add: BITS32_def)
  show ?thesis using v p l s c1 c2 c3 c4 v' p' d1 d2 d3 d4 by blast
qed
section \<open>C3: the freshness of \<open>getStateVector\<close>\<close>

text \<open>C3. \<open>getStateVector\<close> does return the cached state vector exactly when a record is
  cached whose stamp equals the current clock, and merges and flushes otherwise
  (\<open>getStateVector_cached_iff_fresh\<close>). But the summary it returns can be older than the log
  tail: \<open>storeUpdates\<close> and \<open>insertUpdates\<close> stamp the state-vector record with
  \<open>encodeStateVector (-1) sv\<close>, whose first byte is 127 and which therefore reads back as clock
  127. After a document has been imported with \<open>storeUpdates\<close> and 127 updates have been
  appended with \<open>storeUpdate\<close>, the current clock is 127, the log holds 128 updates whose
  merged summary (with the stand-in engine) is \<open>[128]\<close>, the cached record reads as
  \<open>([1], 127)\<close>, and \<open>getStateVector\<close> returns the summary \<open>[1]\<close> of the first update alone
  and leaves the store as it is.\<close>

theorem getStateVector_stale_after_import:
  "getCurrentUpdateClock staleStore ''doc1'' = 127 \<and>
   getMongoUpdates staleStore ''doc1'' = Inr ([1] # replicate 127 [2]) \<and>
   snd (mergeUpdates concatEngine ([1] # replicate 127 [2])) = [128] \<and>
   readStateVector staleStore ''doc1'' = Inr (Some [1], 127) \<and>
   getStateVector_tx concatEngine ''doc1'' staleStore = (Inr [1], staleStore)"
proof -
  have "foldl (\<lambda>d u. d @ u) acc us = acc @ concat us" for acc :: bytes and us
    by (induction us arbitrary: acc) simp_all
  then have "snd (mergeUpdates concatEngine ([1] # replicate 127 [2]))
             = [of_nat (length (concat ([1] # replicate 127 ([2] :: bytes))))]"
    by (simp add: mergeUpdates_def concatEngine_def Let_def)
  also have "length (concat ([1] # replicate 127 ([2] :: bytes))) = 128"
    by (simp add: length_concat sum_list_replicate)
  finally have m: "snd (mergeUpdates concatEngine ([1] # replicate 127 [2])) = [128]" by simp
  have "getStateVector_tx concatEngine ''doc1'' staleStore = (Inr [1], staleStore)"
    by (rule getStateVector_tx_hit [OF staleStore_cache]) (simp add: staleStore_clock)
  then show ?thesis using staleStore_clock staleStore_log m staleStore_cache by simp
qed

section \<open>C4: a broken part sequence\<close>

text \<open>C4, as stated: whenever the records flagged with a part for one clock do not form
  \<open>1, 2, 3, \<dots>\<close>, the read fails. It does not when part 1 itself is missing: on the ordered
  sequence of an unflagged record at clock 0 and a record at clock 1 with part 2, the
  parts of clock 1 are \<open>[2]\<close>, and \<open>convertMongoUpdates\<close> returns the first record's bytes
  and passes over the second without an error.\<close>

theorem chunk_sequence_counterexample:
  "orderedRecords
     [\<lparr>version = Some ''v1'', action = Some ''update'', docName = Some ''doc1'',
       clock = Some 0, part = None, metaKey = None, val = [1]\<rparr>,
      \<lparr>version = Some ''v1'', action = Some ''update'', docName = Some ''doc1'',
       clock = Some 1, part = Some 2, metaKey = None, val = [2]\<rparr>] \<and>
   brokenSequence
     [\<lparr>version = Some ''v1'', action = Some ''update'', docName = Some ''doc1'',
       clock = Some 0, part = None, metaKey = None, val = [1]\<rparr>,
      \<lparr>version = Some ''v1'', action = Some ''update'', docName = Some ''doc1'',
       clock = Some 1, part = Some 2, metaKey = None, val = [2]\<rparr>] \<and>
   convertMongoUpdates
     [\<lparr>version = Some ''v1'', action = Some ''update'', docName = Some ''doc1'',
       clock = Some 0, part = None, metaKey = None, val = [1]\<rparr>,
      \<lparr>version = Some ''v1'', action = Some ''update'', docName = Some ''doc1'',
       clock = Some 1, part = Some 2, metaKey = None, val = [2]\<rparr>] = Inr [[1]]"
  by (simp add: orderedRecords_def brokenSequence_def partsOfClock_Cons contiguousParts_def
      truthy_def)

text \<open>C4, amended: for every record sequence ordered by \<open>(clock, part)\<close> in which the
  first flagged record of every clock is its part 1 (what the comment above
  \<open>convertMongoUpdates\<close> assumes), the read fails with \<open>CorruptChunkSequence\<close> whenever the
  flagged parts of some clock are not \<open>1, 2, \<dots>, n\<close>; and when they all are, it returns the
  merged updates.\<close>

theorem broken_sequence_detected:
  "orderedRecords docs \<Longrightarrow> partOneFirst docs \<Longrightarrow>
   (brokenSequence docs \<longrightarrow> convertMongoUpdates docs = Inl CorruptChunkSequence) \<and>
   (\<not> brokenSequence docs \<longrightarrow> (\<exists>updates. convertMongoUpdates docs = Inr updates))"
proof -
  assume "orderedRecords docs" "partOneFirst docs"
  then have iff: "(convertMongoUpdates docs = Inl CorruptChunkSequence) = brokenSequence docs"
    by (rule convertMongoUpdates_broken_iff)
  show ?thesis
  proof (cases "convertMongoUpdates docs")
    case (Inl e)
    then show ?thesis using iff convertMongoUpdates_error [OF Inl] by simp
  next
    case (Inr us)
    then show ?thesis using iff by simp
  qed
qed

text \<open>Parts 1 and 3 of clock 0: part 2 is missing.\<close>

theorem broken_sequence_detected_witness:
  "orderedRecords
     [\<lparr>version = Some ''v1'', action = Some ''update'', docName = Some ''doc1'',
       clock = Some 0, part = Some 1, metaKey = None, val = [1]\<rparr>,
      \<lparr>version = Some ''v1'', action = Some ''update'', docName = Some ''doc1'',
       clock = Some 0, part = Some 3, metaKey = None, val = [3]\<rparr>] \<and>
   partOneFirst
     [\<lparr>version = Some ''v1'', action = Some ''update'', docName = Some ''doc1'',
       clock = Some 0, part = Some 1, metaKey = None, val = [1]\<rparr>,
      \<lparr>version = Some ''v1'', action = Some ''update'', docName = Some ''doc1'',
       clock = Some 0, part = Some 3, metaKey = None, val = [3]\<rparr>] \<and>
   brokenSequence
     [\<lparr>version = Some ''v1'', action = Some ''update'', docName = Some ''doc1'',
       clock = Some 0, part = Some 1, metaKey = None, val = [1]\<rparr>,
      \<lparr>version = Some ''v1'', action = Some ''update'', docName = Some ''doc1'',
       clock = Some 0, part = Some 3, metaKey = None, val = [3]\<rparr>] \<and>
   convertMongoUpdates
     [\<lparr>version = Some ''v1'', action = Some ''update'', docName = Some ''doc1'',
       clock = Some 0, part = Some 1, metaKey = None, val = [1]\<rparr>,
      \<lparr>version = Some ''v1'', action = Some ''update'', docName = Some ''doc1'',
       clock = Some 0, part = Some 3, metaKey = None, val = [3]\<rparr>] = Inl CorruptChunkSequence"
proof -
  let ?docs = "[\<lparr>version = Some ''v1'', action = Some ''update'', docName = Some ''doc1'',
       clock = Some 0, part = Some 1, metaKey = None, val = [1 :: byte]\<rparr>,
      \<lparr>version = Some ''v1'', action = Some ''update'', docName = Some ''doc1'',
       clock = Some 0, part = Some 3, metaKey = None, val = [3]\<rparr>]"
  have o: "orderedRecords ?docs" by (simp add: orderedRecords_def)
  have p: "partOneFirst ?docs" by (simp add: partOneFirst_def partsOfClock_Cons truthy_def)
  have b: "brokenSequence ?docs"
    by (simp add: brokenSequence_def partsOfClock_Cons contiguousParts_def truthy_def)
  show ?thesis using broken_sequence_detected [OF o p] o p b by simp
qed

section \<open>C5: splitting and merging an oversized update\<close>

text \<open>C5. For every update longer than \<open>MAX_DOCUMENT_SIZE\<close> (15000000 bytes) and every store
  in which the clock \<open>storeUpdate\<close> assigns is in the valid range: the records stored under
  that clock, read back in \<open>(clock, part)\<close> order, are \<open>Math.ceil(length / MAX_DOCUMENT_SIZE)\<close>
  parts (at least two), numbered from 1, all with that clock, each of at most
  \<open>MAX_DOCUMENT_SIZE\<close> bytes; their bytes concatenated are the update, and
  \<open>convertMongoUpdates\<close> merges them into exactly the one original update. On a document
  without update records, reading the document back gives exactly that update.\<close>

theorem chunk_roundtrip:
  assumes big: "MAX_DOCUMENT_SIZE < length update"
    and range: "getCurrentUpdateClock db dn + 1 < BITS32"
  shows "let c = getCurrentUpdateClock db dn + 1;
             db' = fst (storeUpdate Y db dn update);
             parts = db_find db' (createDocumentUpdateKey dn (Some c))
         in length parts = totalChunks update \<and> 2 \<le> length parts \<and>
            (\<forall>i < length parts.
               part (parts ! i) = Some (int i + 1) \<and> clock (parts ! i) = Some c \<and>
               length (val (parts ! i)) \<le> MAX_DOCUMENT_SIZE) \<and>
            concat (map val parts) = update \<and>
            convertMongoUpdates parts = Inr [update] \<and>
            ((\<forall>d \<in> set db. \<not> matches (createDocumentUpdateKey dn None) d)
               \<longrightarrow> getMongoUpdates db' dn = Inr [update])"
proof -
  define c where "c = getCurrentUpdateClock db dn + 1"
  define db' where "db' = fst (storeUpdate Y db dn update)"
  define recs where "recs = updateRecords dn c update"
  have all: "\<forall>d \<in> set recs. matches (createDocumentUpdateKey dn (Some c)) d"
    unfolding recs_def using updateRecords_fields by (auto simp: matches_updateKey)
  have all': "\<forall>d \<in> set recs. matches (createDocumentUpdateKey dn None) d"
    unfolding recs_def using updateRecords_fields by (auto simp: matches_updateKey)
  have ord: "orderedRecords recs" unfolding recs_def by (rule updateRecords_ordered)
  have "filter (matches (createDocumentUpdateKey dn (Some c))) db' = recs"
    unfolding c_def db'_def recs_def using range by (rule storeUpdate_new_clock_records)
  with ord all have parts: "db_find db' (createDocumentUpdateKey dn (Some c)) = recs"
    by (rule db_find_sorted)
  have len: "length recs = totalChunks update"
    using big by (simp add: recs_def length_updateRecords)
  have two: "2 \<le> length recs" using len totalChunks_ge2 [OF big] by simp
  have nth: "part (recs ! i) = Some (int i + 1) \<and> clock (recs ! i) = Some c \<and>
             length (val (recs ! i)) \<le> MAX_DOCUMENT_SIZE" if "i < length recs" for i
    using that len big by (simp add: recs_def updateRecords_nth length_chunkOf)
  have "map val recs = map (chunkOf update) [0 ..< totalChunks update]"
    using big by (simp add: recs_def updateRecords_def comp_def)
  then have cat: "concat (map val recs) = update" by (simp only: concat_chunkOf)
  have conv: "convertMongoUpdates recs = Inr [update]"
    unfolding recs_def by (rule convertMongoUpdates_updateRecords)
  have fresh: "getMongoUpdates db' dn = Inr [update]"
    if none: "\<forall>d \<in> set db. \<not> matches (createDocumentUpdateKey dn None) d"
  proof -
    have "filter (matches (createDocumentUpdateKey dn None)) db = []"
      using none by (simp add: filter_empty_conv)
    then have "filter (matches (createDocumentUpdateKey dn None)) db' = recs"
      unfolding db'_def recs_def c_def storeUpdate_all_records [OF range] by simp
    with ord all' have "db_find db' (createDocumentUpdateKey dn None) = recs"
      by (rule db_find_sorted)
    then show ?thesis by (simp add: getMongoUpdates_def conv)
  qed
  show ?thesis
    unfolding Let_def c_def [symmetric] db'_def [symmetric] parts
    using len two nth cat conv fresh by blast
qed


text \<open>The scenario of the spec: 20 MB stored on the empty store are two parts, and the
  load gives the bytes back.\<close>

theorem chunk_roundtrip_witness:
  "MAX_DOCUMENT_SIZE < length (replicate 20000000 (0 :: byte)) \<and>
   getCurrentUpdateClock [] ''doc1'' + 1 < BITS32 \<and>
   length (db_find (fst (storeUpdate concatEngine [] ''doc1'' (replicate 20000000 0)))
             (createDocumentUpdateKey ''doc1'' (Some 0))) = 2 \<and>
   getMongoUpdates (fst (storeUpdate concatEngine [] ''doc1'' (replicate 20000000 0))) ''doc1''
     = Inr [replicate 20000000 0]"
proof -
  let ?u = "replicate 20000000 (0 :: byte)"
  have big: "MAX_DOCUMENT_SIZE < length ?u" by (simp add: MAX_DOCUMENT_SIZE_def)
  have g: "getCurrentUpdateClock [] ''doc1'' = - 1" by (simp add: getCurrentUpdateClock_none)
  have range: "getCurrentUpdateClock [] ''doc1'' + 1 < BITS32" by (simp add: g BITS32_def)
  have n: "totalChunks ?u = 2" by (simp add: totalChunks_def MAX_DOCUMENT_SIZE_def)
  note t = chunk_roundtrip [OF big range, of concatEngine, unfolded Let_def g n]
  have "length (db_find (fst (storeUpdate concatEngine [] ''doc1'' ?u))
                  (createDocumentUpdateKey ''doc1'' (Some 0))) = 2"
    using t [THEN conjunct1] by simp
  moreover have "getMongoUpdates (fst (storeUpdate concatEngine [] ''doc1'' ?u)) ''doc1'' = Inr [?u]"
    using t by simp
  ultimately show ?thesis using big range by simp
qed

section \<open>C6: a failing transaction\<close>

text \<open>C6, as stated: the error of a failing operation is reported to the operation's own
  caller. In the code the \<open>catch\<close> of \<open>_transact\<close> only logs the error and the promise the
  caller holds is resolved with \<open>null\<close>: on an empty table and store, a transaction that
  throws \<open>boom\<close> gives a promise that resolves with \<open>null\<close> and is not rejected.\<close>

theorem transact_failure_counterexample:
  "fst (snd (transact Map.empty ''doc1'' (\<lambda>db. (Inl (OtherError ''boom'') :: js_error + int, db)))
         \<lparr>w_db = [], w_console = []\<rparr>) = Resolved None \<and>
   fst (snd (transact Map.empty ''doc1'' (\<lambda>db. (Inl (OtherError ''boom'') :: js_error + int, db)))
         \<lparr>w_db = [], w_console = []\<rparr>) \<noteq> Rejected (OtherError ''boom'')"
  by (simp add: transact_promise promise_resolve_def)

text \<open>C6, amended: when an operation submitted to \<open>_transact\<close> throws \<open>err\<close> (the chain
  before it having settled without rejection in the world \<open>w1\<close>), the promise returned to
  its caller resolves with \<open>null\<close> (it is not rejected), the error is appended to the
  console (\<open>console.warn\<close>), the table entry of the document is that promise, and the next
  operation \<open>g\<close> submitted for the same document still runs, on the store the failed
  operation left, and settles with its own result.\<close>

theorem transact_failure_swallowed:
  assumes before: "(case tr dn of None \<Rightarrow> promise_resolve | Some p \<Rightarrow> p) w = (Resolved x, w1)"
    and fails: "f (w_db w1) = (Inl err, db')"
  shows "snd (transact tr dn f) w
           = (Resolved None, \<lparr>w_db = db', w_console = w_console w1 @ [err]\<rparr>) \<and>
         fst (transact tr dn f) dn = Some (snd (transact tr dn f)) \<and>
         snd (transact (fst (transact tr dn f)) dn g) w =
           (case g db' of
              (Inr res, db'') \<Rightarrow>
                (Resolved (Some res), \<lparr>w_db = db'', w_console = w_console w1 @ [err]\<rparr>)
            | (Inl err', db'') \<Rightarrow>
                (Resolved None, \<lparr>w_db = db'', w_console = w_console w1 @ [err, err']\<rparr>))"
proof -
  let ?p = "snd (transact tr dn f)"
  have pw: "?p w = (Resolved None, \<lparr>w_db = db', w_console = w_console w1 @ [err]\<rparr>)"
    unfolding transact_promise using before fails by simp
  have tab: "fst (transact tr dn f) dn = Some ?p"
    by (simp add: transact_table)
  have "snd (transact (fst (transact tr dn f)) dn g) w =
           (case g db' of
              (Inr res, db'') \<Rightarrow>
                (Resolved (Some res), \<lparr>w_db = db'', w_console = w_console w1 @ [err]\<rparr>)
            | (Inl err', db'') \<Rightarrow>
                (Resolved None, \<lparr>w_db = db'', w_console = w_console w1 @ [err, err']\<rparr>))"
    unfolding transact_promise [of "fst (transact tr dn f)"] tab
    using pw by (simp split: prod.splits sum.splits)
  then show ?thesis using pw tab by simp
qed

text \<open>A network error in the first operation of a chain; the second returns 7.\<close>

theorem transact_failure_swallowed_witness:
  "(case (Map.empty :: string \<rightharpoonup> int promise) ''doc1'' of None \<Rightarrow> promise_resolve | Some p \<Rightarrow> p)
      \<lparr>w_db = [], w_console = []\<rparr> = (Resolved None, \<lparr>w_db = [], w_console = []\<rparr>) \<and>
   (\<lambda>db. (Inl MongoNetworkError :: js_error + int, db)) (w_db \<lparr>w_db = [], w_console = []\<rparr>)
      = (Inl MongoNetworkError, []) \<and>
   snd (transact Map.empty ''doc1'' (\<lambda>db. (Inl MongoNetworkError :: js_error + int, db)))
      \<lparr>w_db = [], w_console = []\<rparr> = (Resolved None, \<lparr>w_db = [], w_console = [MongoNetworkError]\<rparr>) \<and>
   snd (transact (fst (transact Map.empty ''doc1'' (\<lambda>db. (Inl MongoNetworkError :: js_error + int, db))))
          ''doc1'' (\<lambda>db. (Inr 7, db)))
      \<lparr>w_db = [], w_console = []\<rparr> = (Resolved (Some 7), \<lparr>w_db = [], w_console = [MongoNetworkError]\<rparr>)"
proof -
  let ?w = "\<lparr>w_db = [], w_console = []\<rparr>"
  let ?f = "\<lambda>db :: store. (Inl MongoNetworkError :: js_error + int, db)"
  let ?g = "\<lambda>db :: store. (Inr 7 :: js_error + int, db)"
  have b: "(case (Map.empty :: string \<rightharpoonup> int promise) ''doc1'' of None \<Rightarrow> promise_resolve | Some p \<Rightarrow> p) ?w
           = (Resolved None, ?w)"
    by (simp add: promise_resolve_def)
  have f: "?f (w_db ?w) = (Inl MongoNetworkError, [])" by simp
  show ?thesis
    using transact_failure_swallowed [of Map.empty "''doc1''" ?w None ?w ?f MongoNetworkError "[]" ?g, OF b f] b
    by simp
qed

section \<open>C7: the retry wrapper\<close>


section \<open>C8: the state-vector codec round-trips\<close>

text \<open>C8. For every clock that is a non-negative integer of JavaScript's exact range
  (at most \<open>MAX_SAFE_INTEGER\<close>) and every summary byte array (whose length is such a number
  too), \<open>encodeStateVector\<close> writes the variable-length integer of the clock, then the
  variable-length integer of the summary's length, then the summary's bytes; and
  \<open>decodeMongodbStateVector\<close>, given these bytes as the store returns them (a \<open>Binary\<close>) or
  as a \<open>Buffer\<close>, yields exactly the original summary and clock.\<close>

theorem stateVector_codec_roundtrip:
  "0 \<le> clock' \<Longrightarrow> clock' \<le> MAX_SAFE_INTEGER \<Longrightarrow> int (length sv) \<le> MAX_SAFE_INTEGER \<Longrightarrow>
   encodeStateVector clock' sv = writeVarUint clock' @ writeVarUint (int (length sv)) @ sv \<and>
   decodeMongodbStateVector (Binary (encodeStateVector clock' sv)) = Inr (sv, clock') \<and>
   decodeMongodbStateVector (Buffer (encodeStateVector clock' sv)) = Inr (sv, clock')"
  using readVarUint8Array_writeVarUint8Array [of sv "[]"]
  by (simp add: decodeMongodbStateVector_def encodeStateVector_def readVarUint_writeVarUint
      writeVarUint8Array_def)

text \<open>At clock 300 and summary \<open>[1, 2, 3]\<close> the encoding is \<open>[172, 2, 3, 1, 2, 3]\<close>.\<close>

theorem stateVector_codec_roundtrip_witness:
  "(0::int) \<le> 300 \<and> 300 \<le> MAX_SAFE_INTEGER \<and> int (length [1, 2, 3 :: byte]) \<le> MAX_SAFE_INTEGER \<and>
   encodeStateVector 300 [1, 2, 3] = [172, 2, 3, 1, 2, 3] \<and>
   decodeMongodbStateVector (Binary [172, 2, 3, 1, 2, 3]) = Inr ([1, 2, 3], 300)"
proof -
  have w: "writeVarUint 300 = [172, 2]" "writeVarUint 3 = [3]"
    by (simp_all add: writeVarUint.simps BITS7_def BIT8_def)
  have e: "encodeStateVector 300 [1, 2, 3] = [172, 2, 3, 1, 2, 3]"
    by (simp add: encodeStateVector_def writeVarUint8Array_def w)
  show ?thesis
    using stateVector_codec_roundtrip [of 300 "[1, 2, 3]"]
    by (simp add: MAX_SAFE_INTEGER_def e)
qed

section \<open>C9: flushing twice\<close>

text \<open>C9. For a document whose update records have clocks in the valid range (with room for
  two more clocks), whose state-vector records carry no clock, whose log is readable, and
  for an engine in which the state vector of a document rebuilt from its own state-as-update
  is the state vector of that document (the spec's ``fresh summary equivalent to replaying
  the whole history''): two flushes in succession both succeed, the state vector read
  back after the first and after the second is the same summary (the one merged from the
  log), stamped with the next clock each time; and after each flush the document's update
  log is not empty. After the first flush the log reads as exactly the consolidated
  update.\<close>

theorem flush_twice_same_summary:
  assumes valid: "validClocks db dn" and plain: "plainStateVectors db dn"
    and range: "getCurrentUpdateClock db dn + 2 < BITS32"
    and log: "getMongoUpdates db dn = Inr updates"
    and len: "int (length (snd (mergeUpdates Y updates))) \<le> MAX_SAFE_INTEGER"
    and engine: "\<forall>d. Y_encodeStateVector Y (Y_applyUpdate Y (Y_Doc Y) (Y_encodeStateAsUpdate Y d))
                     = Y_encodeStateVector Y d"
  shows "let summary = snd (mergeUpdates Y updates);
             db1 = snd (flushDocument_tx Y dn db);
             db2 = snd (flushDocument_tx Y dn db1)
         in flushDocument_tx Y dn db = (Inr (), db1) \<and>
            flushDocument_tx Y dn db1 = (Inr (), db2) \<and>
            readStateVector db1 dn = Inr (Some summary, getCurrentUpdateClock db dn + 1) \<and>
            readStateVector db2 dn = Inr (Some summary, getCurrentUpdateClock db dn + 2) \<and>
            filter (matches (createDocumentUpdateKey dn None)) db1 \<noteq> [] \<and>
            filter (matches (createDocumentUpdateKey dn None)) db2 \<noteq> [] \<and>
            getMongoUpdates db1 dn = Inr [fst (mergeUpdates Y updates)]"
proof -
  define u1 where "u1 = fst (mergeUpdates Y updates)"
  define sv where "sv = snd (mergeUpdates Y updates)"
  define db1 where "db1 = snd (flushDocument_tx Y dn db)"
  define db2 where "db2 = snd (flushDocument_tx Y dn db1)"
  have range1: "getCurrentUpdateClock db dn + 1 < BITS32" using range by simp
  note f1 = flush_once [OF valid plain range1 log len, folded db1_def u1_def sv_def]
  have sv2: "snd (mergeUpdates Y [u1]) = sv"
    using engine by (simp add: mergeUpdates_single u1_def sv_def mergeUpdates_def Let_def)
  have range2: "getCurrentUpdateClock db1 dn + 1 < BITS32" using range f1(5) by simp
  have len2: "int (length (snd (mergeUpdates Y [u1]))) \<le> MAX_SAFE_INTEGER"
    using len by (simp add: sv2 sv_def)
  note f2 = flush_once [OF f1(6) f1(7) range2 f1(4) len2, folded db2_def, unfolded sv2 f1(5)]
  have ne1: "filter (matches (createDocumentUpdateKey dn None)) db1 \<noteq> []"
    unfolding f1(3) by (rule updateRecords_nonempty)
  have ne2: "filter (matches (createDocumentUpdateKey dn None)) db2 \<noteq> []"
    unfolding f2(3) by (rule updateRecords_nonempty)
  have r2: "readStateVector db2 dn = Inr (Some sv, getCurrentUpdateClock db dn + 2)"
    using f2(2) by (simp add: add.assoc)
  show ?thesis
    unfolding Let_def db1_def [symmetric] db2_def [symmetric] sv_def [symmetric] u1_def [symmetric]
    using f1(1) f2(1) f1(2) r2 ne1 ne2 f1(4) by blast
qed


text \<open>Two stored updates, flushed twice.\<close>

theorem flush_twice_same_summary_witness:
  "validClocks [updateRecord ''doc1'' 0 [7], updateRecord ''doc1'' 1 [8]] ''doc1'' \<and>
   plainStateVectors [updateRecord ''doc1'' 0 [7], updateRecord ''doc1'' 1 [8]] ''doc1'' \<and>
   getCurrentUpdateClock [updateRecord ''doc1'' 0 [7], updateRecord ''doc1'' 1 [8]] ''doc1'' + 2 < BITS32 \<and>
   getMongoUpdates [updateRecord ''doc1'' 0 [7], updateRecord ''doc1'' 1 [8]] ''doc1'' = Inr [[7], [8]] \<and>
   int (length (snd (mergeUpdates concatEngine [[7], [8]]))) \<le> MAX_SAFE_INTEGER \<and>
   (\<forall>d. Y_encodeStateVector concatEngine
          (Y_applyUpdate concatEngine (Y_Doc concatEngine) (Y_encodeStateAsUpdate concatEngine d))
        = Y_encodeStateVector concatEngine d) \<and>
   readStateVector
     (snd (flushDocument_tx concatEngine ''doc1''
             [updateRecord ''doc1'' 0 [7], updateRecord ''doc1'' 1 [8]])) ''doc1''
     = Inr (Some [2], 2) \<and>
   readStateVector
     (snd (flushDocument_tx concatEngine ''doc1''
        (snd (flushDocument_tx concatEngine ''doc1''
                [updateRecord ''doc1'' 0 [7], updateRecord ''doc1'' 1 [8]])))) ''doc1''
     = Inr (Some [2], 3)"
proof -
  let ?db = "[updateRecord ''doc1'' 0 [7], updateRecord ''doc1'' 1 [8]]"
  have v: "validClocks ?db ''doc1''"
    by (simp add: validClocks_def updateRecord_def matches_updateKey matches_currentClockQuery
        BITS32_def)
  have p: "plainStateVectors ?db ''doc1''"
    by (simp add: plainStateVectors_def updateRecord_def matches_svKey)
  have g: "getCurrentUpdateClock ?db ''doc1'' = 1"
    by (rule getCurrentUpdateClock_eqI [of "updateRecord ''doc1'' 1 [8]"])
      (simp_all add: updateRecord_def matches_currentClockQuery BITS32_def)
  have r: "getCurrentUpdateClock ?db ''doc1'' + 2 < BITS32" by (simp add: g BITS32_def)
  have lg: "getMongoUpdates ?db ''doc1'' = Inr [[7], [8]]"
    by (simp add: getMongoUpdates_def db_find_def updateRecord_def matches_updateKey truthy_def
        less_eq_prod_def)
  have m: "mergeUpdates concatEngine [[7], [8]] = ([7, 8], [2])"
    by (simp add: mergeUpdates_def concatEngine_def)
  have l: "int (length (snd (mergeUpdates concatEngine [[7], [8]]))) \<le> MAX_SAFE_INTEGER"
    by (simp add: m MAX_SAFE_INTEGER_def)
  have e: "\<forall>d. Y_encodeStateVector concatEngine
          (Y_applyUpdate concatEngine (Y_Doc concatEngine) (Y_encodeStateAsUpdate concatEngine d))
        = Y_encodeStateVector concatEngine d"
    by (simp add: concatEngine_def)
  note t = flush_twice_same_summary [OF v p r lg l e, unfolded Let_def g m snd_conv]
  have c1: "readStateVector (snd (flushDocument_tx concatEngine ''doc1'' ?db)) ''doc1''
            = Inr (Some [2], 2)"
    using t [THEN conjunct2, THEN conjunct2, THEN conjunct1] by simp
  have c2: "readStateVector
     (snd (flushDocument_tx concatEngine ''doc1''
        (snd (flushDocument_tx concatEngine ''doc1'' ?db)))) ''doc1'' = Inr (Some [2], 3)"
    using t [THEN conjunct2, THEN conjunct2, THEN conjunct2, THEN conjunct1] by simp
  show ?thesis using v p r lg l e c1 c2 by blast
qed

section \<open>C10: the bulk ingestion paths\<close>

text \<open>C10. \<open>storeUpdates\<close> and \<open>insertUpdates\<close> do return 0, write the records under clock 0 and
  stamp the state-vector records with \<open>encodeStateVector (-1) sv\<close> (\<open>storeUpdates_one\<close> for one
  document whose name is not \<^verbatim>\<open>__proto__\<close>; a document of that name is not stored,
  \<open>storeUpdates_proto\<close>). But they do not store every document's update: the identifiers of
  \<open>updateMap\<close> are the document name for an update that fits one record and
  \<open>docName-part<i>\<close> for a part, and the two can be the same string. For the input map with
  a 20 MB update for the document \<open>a\<close> and the two-byte update \<open>[0, 0]\<close> for the document
  \<open>a-part1\<close>, the entry of part 1 of \<open>a\<close> is replaced by the entry of \<open>a-part1\<close>: both
  operations return 0, the only update record they leave for \<open>a\<close> is its part 2, and reading
  \<open>a\<close> back gives no update at all.\<close>

theorem bulk_import_key_collision:
  "fst (storeUpdates concatEngine [] [(''a'', replicate 20000000 0), (''a-part1'', [0, 0])]) = Inr 0 \<and>
   filter (matches (createDocumentUpdateKey ''a'' None))
     (snd (storeUpdates concatEngine [] [(''a'', replicate 20000000 0), (''a-part1'', [0, 0])]))
     = [newRecord ((createDocumentUpdateKey ''a'' (Some 0))\<lparr>q_part := Some 2\<rparr>)
          (replicate 5000000 0)] \<and>
   getMongoUpdates
     (snd (storeUpdates concatEngine [] [(''a'', replicate 20000000 0), (''a-part1'', [0, 0])])) ''a''
     = Inr [] \<and>
   fst (insertUpdates concatEngine [] [(''a'', replicate 20000000 0), (''a-part1'', [0, 0])]) = Inr 0 \<and>
   filter (matches (createDocumentUpdateKey ''a'' None))
     (snd (insertUpdates concatEngine [] [(''a'', replicate 20000000 0), (''a-part1'', [0, 0])]))
     = [newRecord ((createDocumentUpdateKey ''a'' (Some 0))\<lparr>q_part := Some 2\<rparr>)
          (replicate 5000000 0)] \<and>
   getMongoUpdates
     (snd (insertUpdates concatEngine [] [(''a'', replicate 20000000 0), (''a-part1'', [0, 0])])) ''a''
     = Inr []"
proof -
  let ?input = "[(''a'', replicate 20000000 (0 :: byte)), (''a-part1'', [0, 0])]"
  let ?db = "[newRecord (createDocumentStateVectorKey ''a'') (encodeStateVector (- 1) [0]),
              newRecord (createDocumentStateVectorKey ''a-part1'') (encodeStateVector (- 1) [2]),
              newRecord (createDocumentUpdateKey ''a-part1'' (Some 0)) [0, 0],
              newRecord ((createDocumentUpdateKey ''a'' (Some 0))\<lparr>q_part := Some 2\<rparr>)
                (replicate 5000000 0)]"
  have s: "storeUpdates concatEngine [] ?input = (Inr 0, ?db)"
    by (simp add: storeUpdates_def bulkMaps_collision bulkWriteWithConcurrency_short
        concurrencyLimit_def db_bulkPut_def matches_svKey matches_updateKey matches_partKey
        Let_def)
  have i: "insertUpdates concatEngine [] ?input = (Inr 0, ?db)"
    by (simp add: insertUpdates_def bulkMaps_collision retryMongoOperation_success
        db_bulkInsert_def Let_def)
  have f: "filter (matches (createDocumentUpdateKey ''a'' None)) ?db
           = [newRecord ((createDocumentUpdateKey ''a'' (Some 0))\<lparr>q_part := Some 2\<rparr>)
                (replicate 5000000 0)]"
    by (simp add: matches_updateKey)
  have g: "getMongoUpdates ?db ''a'' = Inr []"
    unfolding getMongoUpdates_def db_find_def f by (simp add: truthy_def)
  show ?thesis unfolding s i fst_conv snd_conv f g by simp
qed

end
